theory Spec2Isabelle
  imports Complex_Main
begin

section \<open>JavaScript numbers\<close>

text \<open>
  A JavaScript \<open>number\<close> is an IEEE-754 binary64 value.  Finite numbers are modelled
  as rationals.  Every function that does arithmetic takes the rounding \<open>rnd\<close> applied
  to the result of each arithmetic operation and to each decimal literal:
  \<^item> \<open>exact\<close> (the identity) reads the code in exact arithmetic, which is the reading
    of the decimal formulas of the specification;
  \<^item> \<open>binary64\<close> rounds to the nearest number with a 53-bit significand, ties to the
    even significand, which is what the JavaScript engine computes.  Overflow and
    subnormal numbers are not modelled: the scores below stay far away from both.
\<close>

type_synonym number = rat

definition exact :: "number \<Rightarrow> number" where
  "exact x = x"

definition round_half_even :: "rat \<Rightarrow> int" where
  "round_half_even q =
     (let f = \<lfloor>q\<rfloor>; r = q - of_int f
      in if r < 1 / 2 then f else if 1 / 2 < r then f + 1 else if even f then f else f + 1)"

lemma ceiling_half_less:
  fixes q :: rat
  assumes "2 \<le> q"
  shows "\<lceil>q / 2\<rceil> < \<lceil>q\<rceil>"
proof -
  have "q / 2 \<le> q - 1" using assms by simp
  then have "\<lceil>q / 2\<rceil> \<le> \<lceil>q - 1\<rceil>" by (rule ceiling_mono)
  also have "\<dots> = \<lceil>q\<rceil> - 1" by simp
  finally show ?thesis by simp
qed

text \<open>The binary exponent of a positive rational: \<open>2 ^ e \<le> q < 2 ^ (e + 1)\<close>.\<close>

function exponent :: "rat \<Rightarrow> int" where
  "exponent q =
     (if q \<le> 0 then 0
      else if 2 \<le> q then exponent (q / 2) + 1
      else if q < 1 then exponent (2 * q) - 1
      else 0)"
  by pat_completeness auto
termination
proof (relation "measure (\<lambda>q. 2 * nat \<lceil>1 / q\<rceil> + nat \<lceil>q\<rceil>)")
  show "wf (measure (\<lambda>q::rat. 2 * nat \<lceil>1 / q\<rceil> + nat \<lceil>q\<rceil>))" by simp
next
  fix q :: rat
  assume h: "\<not> q \<le> 0" "2 \<le> q"
  have a: "\<lceil>1 / (q / 2)\<rceil> = 1" using h by (simp add: ceiling_eq_iff)
  have b: "\<lceil>1 / q\<rceil> = 1" using h by (simp add: ceiling_eq_iff)
  have c: "\<lceil>q / 2\<rceil> < \<lceil>q\<rceil>" using h by (simp add: ceiling_half_less)
  have d: "0 < \<lceil>q / 2\<rceil>" using h by (simp add: less_ceiling_iff)
  show "(q / 2, q) \<in> measure (\<lambda>q. 2 * nat \<lceil>1 / q\<rceil> + nat \<lceil>q\<rceil>)"
    using a b c d by simp
next
  fix q :: rat
  assume h: "\<not> q \<le> 0" "\<not> 2 \<le> q" "q < 1"
  have c1: "\<lceil>q\<rceil> = 1" using h by (simp add: ceiling_eq_iff)
  show "(2 * q, q) \<in> measure (\<lambda>q. 2 * nat \<lceil>1 / q\<rceil> + nat \<lceil>q\<rceil>)"
  proof (cases "q \<le> 1 / 2")
    case True
    then have c2: "\<lceil>2 * q\<rceil> = 1" using h by (simp add: ceiling_eq_iff)
    have "2 \<le> 1 / q" using True h by (simp add: field_simps)
    then have "\<lceil>(1 / q) / 2\<rceil> < \<lceil>1 / q\<rceil>" by (rule ceiling_half_less)
    then have c3: "\<lceil>1 / (2 * q)\<rceil> < \<lceil>1 / q\<rceil>" by (simp add: field_simps)
    have c4: "0 < \<lceil>1 / (2 * q)\<rceil>" using h by (simp add: less_ceiling_iff)
    show ?thesis using c1 c2 c3 c4 by simp
  next
    case False
    then have c2: "\<lceil>2 * q\<rceil> = 2" using h by (simp add: ceiling_eq_iff)
    have c3: "\<lceil>1 / (2 * q)\<rceil> = 1" using False h by (simp add: ceiling_eq_iff field_simps)
    have c4: "\<lceil>1 / q\<rceil> = 2" using False h by (simp add: ceiling_eq_iff field_simps)
    show ?thesis using c1 c2 c3 c4 by simp
  qed
qed

declare exponent.simps [simp del]

definition binary64 :: "number \<Rightarrow> number" where
  "binary64 x =
     (if x = 0 then 0
      else let u = 2 powi (exponent \<bar>x\<bar> - 52)
           in sgn x * of_int (round_half_even (\<bar>x\<bar> / u)) * u)"


section \<open>Compliance flags (src/types/product.ts)\<close>

text \<open>The literal union \<open>'low' | 'medium' | 'high'\<close> of severities and risk levels.\<close>

datatype level = Low | Medium | High

datatype flag_type = Tos_violation | Brand_rule | Suggestion

record position =
  start :: int
  end' :: int

record ComplianceFlag =
  ftype :: flag_type
  severity :: level
  message :: string
  suggestion :: "string option"
  position :: "position option"


section \<open>Compliance scorer (src/lib/script-editor-service.ts)\<close>

text \<open>
  \<open>calculateComplianceScore\<close>: the early return for no flags, the \<open>forEach\<close> that
  subtracts one weight per flag from \<open>totalScore\<close>, the length bonus, the clamp.
\<close>

definition weight :: "(number \<Rightarrow> number) \<Rightarrow> ComplianceFlag \<Rightarrow> number" where
  "weight rnd flag =
     (if severity flag = High then rnd (3 / 10)
      else if severity flag = Medium then rnd (15 / 100)
      else rnd (5 / 100))"

definition calculateComplianceScore ::
  "(number \<Rightarrow> number) \<Rightarrow> ComplianceFlag list \<Rightarrow> nat \<Rightarrow> number" where
  "calculateComplianceScore rnd flags contentLength =
     (if length flags = 0 then 1
      else
        let totalScore = fold (\<lambda>flag t. rnd (t - weight rnd flag)) flags 1;
            lengthBonus = min (rnd (1 / 10)) (rnd (of_nat contentLength / 1000));
            totalScore = rnd (totalScore + lengthBonus)
        in max 0 (min 1 totalScore))"

text \<open>\<open>determineRiskLevel\<close>: two \<open>filter(...).length\<close> counts and three tests in order.\<close>

definition determineRiskLevel :: "ComplianceFlag list \<Rightarrow> level" where
  "determineRiskLevel flags =
     (let highSeverityFlags = length (filter (\<lambda>f. severity f = High) flags);
          mediumSeverityFlags = length (filter (\<lambda>f. severity f = Medium) flags)
      in if highSeverityFlags > 0 then High
         else if mediumSeverityFlags > 2 then High
         else if mediumSeverityFlags > 0 \<or> length flags > 3 then Medium
         else Low)"

text \<open>The number of flags of one severity, as the claims count them.\<close>

definition count_severity :: "level \<Rightarrow> ComplianceFlag list \<Rightarrow> nat" where
  "count_severity s flags = length (filter (\<lambda>f. severity f = s) flags)"


section \<open>JavaScript strings\<close>

text \<open>
  A string is the list of its code units; \<open>length\<close> counts them.  A character of the
  model is a code unit below \<open>0x100\<close>; apart from the table of line terminators, which
  has no entry for \<open>U+2028\<close> and \<open>U+2029\<close>, no definition and no proof below
  depends on that bound.

  \<open>String.prototype.toLowerCase\<close> belongs to the runtime.  The functions of the
  repository that call it take it as the parameter \<open>toLowerCase\<close>, and what is proved
  of them is proved for every function from strings to strings.

  The ignore-case flag of a regular expression without the unicode flag compares code
  units after \<open>Canonicalize\<close>, the upper-case mapping that never takes a code unit
  above 127 to one below 128.  Every pattern of the repository that is modelled here is
  written in ASCII characters; against such a pattern a code unit of the input agrees
  with a character of the pattern exactly when the two are equal after \<open>A\<close> to \<open>Z\<close>
  are folded onto \<open>a\<close> to \<open>z\<close>, which is \<open>foldCase\<close>.
\<close>

definition foldCase :: "char \<Rightarrow> char" where
  "foldCase c =
     (case map_of (zip ''ABCDEFGHIJKLMNOPQRSTUVWXYZ'' ''abcdefghijklmnopqrstuvwxyz'') c of
        Some l \<Rightarrow> l
      | None \<Rightarrow> c)"

text \<open>
  \<open>String.prototype.indexOf\<close> and \<open>includes\<close>: the search for the smallest index at
  which the pattern stands; \<open>indexOf\<close> returns \<open>-1\<close> when there is none.
\<close>

definition occurs_at :: "string \<Rightarrow> string \<Rightarrow> nat \<Rightarrow> bool" where
  "occurs_at s p i = (i \<le> length s \<and> take (length p) (drop i s) = p)"

fun indexOfFrom :: "string \<Rightarrow> string \<Rightarrow> nat \<Rightarrow> nat option" where
  "indexOfFrom [] p i = (if p = [] then Some i else None)"
| "indexOfFrom (c # cs) p i =
     (if take (length p) (c # cs) = p then Some i else indexOfFrom cs p (Suc i))"

definition indexOf :: "string \<Rightarrow> string \<Rightarrow> int" where
  "indexOf s p = (case indexOfFrom s p 0 of None \<Rightarrow> - 1 | Some i \<Rightarrow> int i)"

definition string_includes :: "string \<Rightarrow> string \<Rightarrow> bool" where
  "string_includes s p = (indexOfFrom s p 0 \<noteq> None)"

text \<open>\<open>Array.prototype.join\<close> on strings.\<close>

fun join :: "string \<Rightarrow> string list \<Rightarrow> string" where
  "join sep [] = []"
| "join sep [x] = x"
| "join sep (x # y # ys) = x @ sep @ join sep (y # ys)"


section \<open>Compliance rule engine (src/lib/script-editor-service.ts)\<close>

subsection \<open>Regular expressions of the rule table\<close>

text \<open>
  Every pattern of \<open>tosRules\<close> has the shape \<open>/\b(a1|a2|...)\b/gi\<close>, each alternative a
  sequence of literal texts and \<open>.*\<close>.  A pattern is the list of its alternatives.  The
  matcher follows the backtracking semantics of \<open>RegExp.prototype.exec\<close>: the leftmost
  start at or after \<open>lastIndex\<close>, there the first alternative that can be completed
  (the closing \<open>\b\<close> included), \<open>.*\<close> greedy over characters that are not line
  terminators, letters compared without case.
\<close>

datatype atom = Lit string | AnyStar

type_synonym regex = "atom list list"

definition isWordChar :: "char \<Rightarrow> bool" where
  "isWordChar c =
     (c \<in> set ''abcdefghijklmnopqrstuvwxyzABCDEFGHIJKLMNOPQRSTUVWXYZ0123456789_'')"

definition isLineTerminator :: "char \<Rightarrow> bool" where
  "isLineTerminator c = (c = CHR 0x0A \<or> c = CHR 0x0D)"

definition wordCharAt :: "string \<Rightarrow> int \<Rightarrow> bool" where
  "wordCharAt s i = (0 \<le> i \<and> i < int (length s) \<and> isWordChar (s ! nat i))"

definition wordBoundary :: "string \<Rightarrow> nat \<Rightarrow> bool" where
  "wordBoundary s i = (wordCharAt s (int i - 1) \<noteq> wordCharAt s (int i))"

fun first_some :: "'a option list \<Rightarrow> 'a option" where
  "first_some [] = None"
| "first_some (None # xs) = first_some xs"
| "first_some (Some x # xs) = Some x"

fun match_atoms :: "atom list \<Rightarrow> string \<Rightarrow> nat \<Rightarrow> nat option" where
  "match_atoms [] s i = (if wordBoundary s i then Some i else None)"
| "match_atoms (Lit l # rest) s i =
     (if i + length l \<le> length s \<and> map foldCase (take (length l) (drop i s)) = map foldCase l
      then match_atoms rest s (i + length l) else None)"
| "match_atoms (AnyStar # rest) s i =
     first_some (map (\<lambda>j. match_atoms rest s j)
       (rev [i ..< Suc (i + length (takeWhile (\<lambda>c. \<not> isLineTerminator c) (drop i s)))]))"

definition match_at :: "regex \<Rightarrow> string \<Rightarrow> nat \<Rightarrow> (nat \<times> nat) option" where
  "match_at re s i =
     (if wordBoundary s i
      then map_option (\<lambda>e. (i, e)) (first_some (map (\<lambda>alt. match_atoms alt s i) re))
      else None)"

definition regex_exec :: "regex \<Rightarrow> string \<Rightarrow> nat \<Rightarrow> (nat \<times> nat) option" where
  "regex_exec re s lastIndex = first_some (map (match_at re s) [lastIndex ..< Suc (length s)])"


lemma first_some_in: "first_some xs = Some x \<Longrightarrow> Some x \<in> set xs"
  by (induction xs rule: first_some.induct) auto

lemma match_atoms_bounds:
  "match_atoms as s i = Some e \<Longrightarrow> i \<le> length s \<Longrightarrow> i \<le> e \<and> e \<le> length s"
proof (induction as s i arbitrary: e rule: match_atoms.induct)
  case (1 s i)
  then show ?case by (simp split: if_splits)
next
  case (2 l rest s i)
  from "2.prems"(1) have c: "i + length l \<le> length s"
      "map foldCase (take (length l) (drop i s)) = map foldCase l"
    and m: "match_atoms rest s (i + length l) = Some e"
    by (simp_all split: if_splits)
  have "i + length l \<le> e \<and> e \<le> length s"
    using c m by (intro "2.IH") simp_all
  then show ?case by simp
next
  case (3 rest s i)
  let ?n = "length (takeWhile (\<lambda>c. \<not> isLineTerminator c) (drop i s))"
  from "3.prems"(1) have "first_some (map (\<lambda>j. match_atoms rest s j) (rev [i ..< Suc (i + ?n)])) = Some e"
    by (simp only: match_atoms.simps)
  then have "Some e \<in> set (map (\<lambda>j. match_atoms rest s j) (rev [i ..< Suc (i + ?n)]))"
    by (rule first_some_in)
  then obtain j where j: "j \<in> set (rev [i ..< Suc (i + ?n)])"
    and m: "match_atoms rest s j = Some e"
    by (auto simp del: upt_Suc)
  have "?n \<le> length (drop i s)" by (rule length_takeWhile_le)
  then have "j \<le> length s" using j "3.prems"(2) by (auto simp del: upt_Suc)
  with "3.IH"[OF j m] j show ?case by (auto simp del: upt_Suc)
qed

lemma regex_exec_bounds:
  assumes "regex_exec re s lastIndex = Some (i, e)"
  shows "lastIndex \<le> i \<and> i \<le> e \<and> e \<le> length s"
proof -
  from assms have "Some (i, e) \<in> set (map (match_at re s) [lastIndex ..< Suc (length s)])"
    unfolding regex_exec_def by (rule first_some_in)
  then obtain k where k: "lastIndex \<le> k" "k \<le> length s"
    and m: "match_at re s k = Some (i, e)"
    by (auto simp del: upt_Suc)
  from m have ik: "i = k" and "first_some (map (\<lambda>alt. match_atoms alt s k) re) = Some e"
    by (auto simp: match_at_def split: if_splits)
  then obtain alt where "match_atoms alt s k = Some e"
    by (auto dest!: first_some_in)
  with match_atoms_bounds[of alt s k e] k ik show ?thesis by auto
qed

text \<open>
  \<open>findRuleMatches\<close>: the loop \<open>while ((match = regex.exec(content)) !== null)\<close> of a
  global regular expression.  After a match \<open>lastIndex\<close> is the end of the match; an
  empty match leaves it where it was, and the loop never ends: the result is \<open>None\<close>.
\<close>

function findMatchesFrom :: "regex \<Rightarrow> string \<Rightarrow> nat \<Rightarrow> position list option" where
  "findMatchesFrom re s lastIndex =
     (case regex_exec re s lastIndex of
        None \<Rightarrow> Some []
      | Some (i, e) \<Rightarrow>
          if e \<le> lastIndex then None
          else map_option (\<lambda>ms. \<lparr>start = int i, end' = int e\<rparr> # ms) (findMatchesFrom re s e))"
  by pat_completeness auto
termination
proof (relation "measure (\<lambda>(re, s, lastIndex). Suc (length s) - lastIndex)")
  show "wf (measure (\<lambda>(re, s, lastIndex). Suc (length s) - lastIndex))" by simp
next
  fix re :: regex and s lastIndex x2 i e
  assume "regex_exec re s lastIndex = Some x2" "(i, e) = x2" "\<not> e \<le> lastIndex"
  then have "e \<le> length s" using regex_exec_bounds[of re s lastIndex i e] by simp
  with \<open>\<not> e \<le> lastIndex\<close>
  show "((re, s, e), (re, s, lastIndex)) \<in> measure (\<lambda>(re, s, lastIndex). Suc (length s) - lastIndex)"
    by simp
qed

declare findMatchesFrom.simps [simp del]

record ComplianceRule =
  rule_type :: flag_type
  pattern :: regex
  rule_message :: string
  rule_severity :: level
  rule_suggestion :: "string option"

definition tosRules :: "ComplianceRule list" where
  \<open>tosRules =
    [\<lparr>rule_type = Tos_violation,
      pattern = [[Lit ''guarantee''], [Lit ''guaranteed''], [Lit ''promise''], [Lit ''ensure''],
                 [Lit ''certainty'']],
      rule_message = ''Avoid making absolute guarantees'',
      rule_severity = High,
      rule_suggestion = Some ''Use "may help" or "can support" instead of guarantees''\<rparr>,
     \<lparr>rule_type = Tos_violation,
      pattern = [[Lit ''lose'', AnyStar, Lit ''weight''], [Lit ''weight'', AnyStar, Lit ''loss''],
                 [Lit ''fat'', AnyStar, Lit ''burner''], [Lit ''diet'', AnyStar, Lit ''pill'']],
      rule_message = ''Weight loss claims are restricted'',
      rule_severity = High,
      rule_suggestion = Some ''Focus on wellness benefits rather than specific weight loss claims''\<rparr>,
     \<lparr>rule_type = Tos_violation,
      pattern = [[Lit ''medical''], [Lit ''cure''], [Lit ''heal''], [Lit ''treat''], [Lit ''prevent''],
                 [Lit ''diagnose'']],
      rule_message = ''Avoid medical claims'',
      rule_severity = High,
      rule_suggestion = Some ''Use "supports" or "helps with" instead of medical terminology''\<rparr>,
     \<lparr>rule_type = Tos_violation,
      pattern = [[Lit ''click'', AnyStar, Lit ''link''], [Lit ''bio'', AnyStar, Lit ''link''],
                 [Lit ''link'', AnyStar, Lit ''in'', AnyStar, Lit ''bio'']],
      rule_message = ''Direct call-to-action language may be restricted'',
      rule_severity = Medium,
      rule_suggestion = Some ''Use "check description" or "see more" instead of direct link references''\<rparr>,
     \<lparr>rule_type = Tos_violation,
      pattern = [[Lit ''buy'', AnyStar, Lit ''now''], [Lit ''purchase''], [Lit ''order''], [Lit ''sale''],
                 [Lit ''discount'', AnyStar, Lit ''price'']],
      rule_message = ''Sales pressure language may be restricted'',
      rule_severity = Medium,
      rule_suggestion = Some ''Focus on product benefits rather than direct sales language''\<rparr>,
     \<lparr>rule_type = Tos_violation,
      pattern = [[Lit ''free'', AnyStar, Lit ''money''], [Lit ''cash'', AnyStar, Lit ''back''],
                 [Lit ''get'', AnyStar, Lit ''paid''], [Lit ''earn'', AnyStar, Lit ''money'']],
      rule_message = ''Financial opportunity claims are restricted'',
      rule_severity = High,
      rule_suggestion = Some ''Avoid making income or financial benefit claims''\<rparr>]\<close>

definition findRuleMatches :: "string \<Rightarrow> ComplianceRule \<Rightarrow> position list option" where
  "findRuleMatches content rule = findMatchesFrom (pattern rule) content 0"

record BrandRule =
  forbidden_keywords :: "string list"
  required_keywords :: "string list"
  custom_rules :: "string list"

text \<open>\<open>checkBrandRules\<close>: the \<open>forEach\<close> over the forbidden keywords, then the advisory.\<close>

definition checkBrandRules ::
  "(string \<Rightarrow> string) \<Rightarrow> string \<Rightarrow> BrandRule \<Rightarrow> ComplianceFlag list" where
  \<open>checkBrandRules toLowerCase content brandRules =
     (let lowerContent = toLowerCase content;
          flags = fold (\<lambda>keyword flags.
              if string_includes lowerContent (toLowerCase keyword)
              then let index = indexOf lowerContent (toLowerCase keyword)
                   in flags @ [\<lparr>ftype = Brand_rule, severity = High,
                        message = ''Forbidden keyword: "'' @ keyword @ ''"'',
                        suggestion = Some ''Remove this term as it violates brand guidelines'',
                        position = Some \<lparr>start = index, end' = index + int (length keyword)\<rparr>\<rparr>]
              else flags) (forbidden_keywords brandRules) []
      in if length (required_keywords brandRules) > 0
         then let hasRequiredKeyword =
                    list_ex (\<lambda>keyword. string_includes lowerContent (toLowerCase keyword))
                      (required_keywords brandRules)
              in if \<not> hasRequiredKeyword
                 then flags @ [\<lparr>ftype = Brand_rule, severity = Low,
                        message = ''Consider including required brand keywords'',
                        suggestion = Some (''Try to include: '' @ join '', '' (required_keywords brandRules)),
                        position = None\<rparr>]
                 else flags
         else flags)\<close>

text \<open>
  The flags that \<open>analyzeScript\<close> collects: for every rule of the table one flag per
  match of \<open>findRuleMatches\<close>, then the brand violations when brand rules are given.
\<close>

definition ruleFlags :: "ComplianceRule \<Rightarrow> string \<Rightarrow> ComplianceFlag list option" where
  "ruleFlags rule content =
     map_option (map (\<lambda>match. \<lparr>ftype = rule_type rule, severity = rule_severity rule,
         message = rule_message rule, suggestion = rule_suggestion rule, position = Some match\<rparr>))
       (findRuleMatches content rule)"

definition analyzeScript_flags ::
  "(string \<Rightarrow> string) \<Rightarrow> string \<Rightarrow> BrandRule option \<Rightarrow> ComplianceFlag list option" where
  "analyzeScript_flags toLowerCase content brandRules =
     map_option (\<lambda>fss. concat fss @ (case brandRules of None \<Rightarrow> [] | Some br \<Rightarrow> checkBrandRules toLowerCase content br))
       (those (map (\<lambda>rule. ruleFlags rule content) tosRules))"


section \<open>AI angle generator\<close>

subsection \<open>Values of the JavaScript runtime\<close>

text \<open>
  The values \<open>JSON.parse\<close> returns.  A number of the runtime is finite, an infinity
  (\<open>JSON.parse("1e999")\<close>) or \<open>NaN\<close> (a failed conversion).  An object is the
  association list of its properties.  \<open>undefined\<close>, the value of a missing property, is
  \<open>None\<close> of \<open>json option\<close>.
\<close>

datatype jsnum = Num rat | PosInfinity | NegInfinity | NaN

datatype json =
    JNull
  | JBool bool
  | JNumber jsnum
  | JString string
  | JArray "json list"
  | JObject "(string \<times> json) list"

datatype thrown = TypeError | SyntaxError | Error string

text \<open>
  What the runtime provides and the repository does not define: \<open>JSON.parse\<close> (\<open>None\<close>
  when it raises a \<open>SyntaxError\<close>), the text of \<open>String(v)\<close> for a number, an array or
  an object that can be converted, and the conversion of a string to a number.
\<close>

record platform =
  JSON_parse :: "string \<Rightarrow> json option"
  String_of :: "json \<Rightarrow> string"
  StringToNumber :: "string \<Rightarrow> jsnum"

text \<open>
  \<open>v.name\<close> on a value that is not \<open>null\<close>: \<open>undefined\<close> when the value has no
  such property (none of the names read below is a property of a string, a number, a
  boolean or an array).  On \<open>null\<close> the read raises a \<open>TypeError\<close>; the callers test
  for it.
\<close>

fun property :: "json \<Rightarrow> string \<Rightarrow> json option" where
  "property (JObject kvs) name = map_of kvs name"
| "property v name = None"

fun truthy :: "json option \<Rightarrow> bool" where
  "truthy None = False"
| "truthy (Some JNull) = False"
| "truthy (Some (JBool b)) = b"
| "truthy (Some (JNumber n)) = (n \<noteq> Num 0 \<and> n \<noteq> NaN)"
| "truthy (Some (JString s)) = (s \<noteq> [])"
| "truthy (Some v) = True"

text \<open>
  \<open>String(v)\<close> and \<open>Number(v)\<close> convert an object to a primitive value by calling its
  \<open>toString\<close> and \<open>valueOf\<close>.  No value that \<open>JSON.parse\<close> returns is callable:
  an object with a property of its own named \<open>toString\<close> hides
  \<open>Object.prototype.toString\<close>, \<open>valueOf\<close> returns the object itself, and the
  conversion raises a \<open>TypeError\<close>.  The text of an array is the \<open>join\<close> of the texts
  of its elements (\<open>null\<close> gives the empty text), so an array raises when one of its
  elements does.
\<close>

fun unconvertible :: "json \<Rightarrow> bool" where
  "unconvertible (JObject kvs) = (''toString'' \<in> set (map fst kvs))"
| "unconvertible (JArray xs) = list_ex unconvertible xs"
| "unconvertible v = False"

text \<open>\<open>String(v)\<close>, and \<open>String(v || d)\<close> for a default text \<open>d\<close>.\<close>

fun js_String :: "platform \<Rightarrow> json \<Rightarrow> thrown + string" where
  "js_String pf (JString s) = Inr s"
| "js_String pf (JBool b) = Inr (if b then ''true'' else ''false'')"
| "js_String pf JNull = Inr ''null''"
| "js_String pf v = (if unconvertible v then Inl TypeError else Inr (String_of pf v))"

fun String_or :: "platform \<Rightarrow> json option \<Rightarrow> string \<Rightarrow> thrown + string" where
  "String_or pf None d = Inr d"
| "String_or pf (Some v) d = (if truthy (Some v) then js_String pf v else Inr d)"

text \<open>\<open>Number(v)\<close>.\<close>

fun js_Number :: "platform \<Rightarrow> json option \<Rightarrow> thrown + jsnum" where
  "js_Number pf None = Inr NaN"
| "js_Number pf (Some JNull) = Inr (Num 0)"
| "js_Number pf (Some (JBool b)) = Inr (if b then Num 1 else Num 0)"
| "js_Number pf (Some (JNumber n)) = Inr n"
| "js_Number pf (Some (JString s)) = Inr (StringToNumber pf s)"
| "js_Number pf (Some (JArray xs)) =
     (if unconvertible (JArray xs) then Inl TypeError
      else Inr (StringToNumber pf (String_of pf (JArray xs))))"
| "js_Number pf (Some (JObject kvs)) =
     (if unconvertible (JObject kvs) then Inl TypeError else Inr NaN)"

fun isArray :: "json option \<Rightarrow> bool" where
  "isArray (Some (JArray xs)) = True"
| "isArray v = False"

fun elements :: "json option \<Rightarrow> json list" where
  "elements (Some (JArray xs)) = xs"
| "elements v = []"

text \<open>
  An expression that may raise, followed by the rest of the evaluation; and
  \<open>xs.map(f)\<close> for a callback that may raise: the first exception leaves the map.
\<close>

fun andThen :: "thrown + 'a \<Rightarrow> ('a \<Rightarrow> thrown + 'b) \<Rightarrow> thrown + 'b" where
  "andThen (Inl e) f = Inl e"
| "andThen (Inr x) f = f x"

fun map_throwing :: "('a \<Rightarrow> thrown + 'b) \<Rightarrow> 'a list \<Rightarrow> thrown + 'b list" where
  "map_throwing f [] = Inr []"
| "map_throwing f (x # xs) =
     (case f x of
        Inl e \<Rightarrow> Inl e
      | Inr y \<Rightarrow> (case map_throwing f xs of Inl e \<Rightarrow> Inl e | Inr ys \<Rightarrow> Inr (y # ys)))"

subsection \<open>The class \<open>AIService\<close> (src/unnamed/part_007)\<close>

record ViralityPackGeneration =
  angle_name :: string
  core_angle :: string
  hook_options :: "string list"
  full_script :: string
  visual_pacing_notes :: string
  audio_suggestion :: string
  sentiment_score :: number
  virality_score :: number

record ViralityAnalysisOutput =
  overall_sentiment_score :: number
  overall_virality_potential :: number
  key_insights :: "json list"
  virality_packs :: "ViralityPackGeneration list"
  recommendations :: "json list"

text \<open>
  \<open>ensureNumber(value, defaultValue, min = -1, max = 1)\<close>: \<open>Number(value)\<close>, which may
  raise, then \<open>Math.max(min, Math.min(max, num))\<close> unless \<open>num\<close> is \<open>NaN\<close>.
\<close>

fun ensureNumber ::
  "platform \<Rightarrow> json option \<Rightarrow> number \<Rightarrow> number \<Rightarrow> number \<Rightarrow> thrown + number" where
  "ensureNumber pf v defaultValue lo hi =
     andThen (js_Number pf v) (\<lambda>num.
       case num of
         NaN \<Rightarrow> Inr defaultValue
       | Num n \<Rightarrow> Inr (max lo (min hi n))
       | PosInfinity \<Rightarrow> Inr (max lo hi)
       | NegInfinity \<Rightarrow> Inr lo)"

text \<open>
  The receiver of a method call.  \<open>validateViralityPack\<close> reads \<open>this.ensureNumber\<close>, and
  the class body is strict code: called without a receiver, \<open>this\<close> is \<open>undefined\<close> and
  the read raises a \<open>TypeError\<close>.
\<close>

datatype receiver = This_undefined | This_service

text \<open>
  \<open>validateViralityPack(pack)\<close>, its properties evaluated in the order of the object
  literal.  Every \<open>ensureNumber\<close> call passes two arguments, so the bounds are the
  defaults \<open>-1\<close> and \<open>1\<close>.
\<close>

definition validateViralityPack ::
  "platform \<Rightarrow> receiver \<Rightarrow> json \<Rightarrow> thrown + ViralityPackGeneration" where
  "validateViralityPack pf this pack =
     (if pack = JNull then Inl TypeError
      else
        andThen (String_or pf (property pack ''angle_name'') ''Untitled Angle'') (\<lambda>angle_name'.
        andThen (String_or pf (property pack ''core_angle'') ''Focus on product benefits'') (\<lambda>core_angle'.
        andThen (if isArray (property pack ''hook_options'')
                 then map_throwing (js_String pf) (elements (property pack ''hook_options''))
                 else Inr [''Try this amazing product!'']) (\<lambda>hook_options'.
        andThen (String_or pf (property pack ''full_script'')
                   ''This product is amazing! You should try it. Link in bio!'') (\<lambda>full_script'.
        andThen (String_or pf (property pack ''visual_pacing_notes'')
                   ''Show product, speak to camera, call to action'') (\<lambda>visual_pacing_notes'.
        andThen (String_or pf (property pack ''audio_suggestion'') ''Upbeat trending audio'') (\<lambda>audio_suggestion'.
        case this of
          This_undefined \<Rightarrow> Inl TypeError
        | This_service \<Rightarrow>
            andThen (ensureNumber pf (property pack ''sentiment_score'') 0 (- 1) 1) (\<lambda>sentiment_score'.
            andThen (ensureNumber pf (property pack ''virality_score'') (1 / 2) (- 1) 1) (\<lambda>virality_score'.
              Inr \<lparr>angle_name = angle_name', core_angle = core_angle',
                   hook_options = hook_options', full_script = full_script',
                   visual_pacing_notes = visual_pacing_notes',
                   audio_suggestion = audio_suggestion',
                   sentiment_score = sentiment_score',
                   virality_score = virality_score'\<rparr>)))))))))"

text \<open>\<open>getFallbackAnalysis()\<close>.\<close>

definition getFallbackAnalysis :: ViralityAnalysisOutput where
  "getFallbackAnalysis =
     \<lparr>overall_sentiment_score = 2 / 10,
      overall_virality_potential = 6 / 10,
      key_insights = [JString ''Product has mixed customer reviews'',
                      JString ''Focus on addressing common pain points'',
                      JString ''Highlight unique value proposition''],
      virality_packs =
        [\<lparr>angle_name = ''Problem-Solution'',
          core_angle = ''Address common customer pain points with your product as the solution'',
          hook_options = [''Tired of dealing with [common problem]?'',
                          ''Finally found a solution for [problem]'',
                          ''This changed everything for me...''],
          full_script = ''Stop struggling with [pain point]... I found this product that actually works! [show product] It helped me [benefit] and now I can't imagine life without it. Link in bio to try it yourself! #[relevant_hashtags]'',
          visual_pacing_notes = ''0-3s: show pain point; 3-5s: reveal product; 5-12s: demonstrate benefits; 12-15s: call to action'',
          audio_suggestion = ''Problem-solving trending audio'',
          sentiment_score = 3 / 10,
          virality_score = 6 / 10\<rparr>],
      recommendations = [JString ''Focus on authentic testimonials'',
                         JString ''Show before/after results'',
                         JString ''Use trending audio formats'',
                         JString ''Keep content under 30 seconds'',
                         JString ''Include clear call-to-action'']\<rparr>"

text \<open>
  \<open>response.match(/\{[\s\S]*\}/)\<close> and \<open>/\[[\s\S]*\]/\<close>: from the first opening
  delimiter to the last closing delimiter after it.
\<close>

definition match_delimited :: "char \<Rightarrow> char \<Rightarrow> string \<Rightarrow> string option" where
  "match_delimited opening closing s =
     (let rest = dropWhile (\<lambda>c. c \<noteq> opening) s
      in if rest \<noteq> [] \<and> closing \<in> set (tl rest)
         then Some (rev (dropWhile (\<lambda>c. c \<noteq> closing) (rev rest)))
         else None)"

text \<open>
  \<open>parseViralityAnalysis\<close>.  The body of its \<open>try\<close> block is
  \<open>parseViralityAnalysis_try\<close>, the properties of the returned object evaluated in
  their order; the \<open>catch\<close> returns the fallback for whatever was raised.
  \<open>parsed.virality_packs.map(this.validateViralityPack)\<close> passes the method without its
  receiver, and \<open>Array.prototype.map\<close> calls it with \<open>this\<close> undefined.
\<close>

definition parseViralityAnalysis_try :: "platform \<Rightarrow> string \<Rightarrow> thrown + ViralityAnalysisOutput" where
  "parseViralityAnalysis_try pf response =
     (case match_delimited (CHR ''{'') (CHR ''}'') response of
        None \<Rightarrow> Inl (Error ''No JSON found in AI response'')
      | Some jsonMatch \<Rightarrow>
          (case JSON_parse pf jsonMatch of
             None \<Rightarrow> Inl SyntaxError
           | Some parsed \<Rightarrow>
               if parsed = JNull then Inl TypeError
               else
                 andThen (ensureNumber pf (property parsed ''overall_sentiment_score'') 0 (- 1) 1)
                   (\<lambda>overall_sentiment_score'.
                 andThen (ensureNumber pf (property parsed ''overall_virality_potential'') (1 / 2) (- 1) 1)
                   (\<lambda>overall_virality_potential'.
                 andThen (if isArray (property parsed ''virality_packs'')
                          then map_throwing (validateViralityPack pf This_undefined)
                                 (elements (property parsed ''virality_packs''))
                          else Inr [])
                   (\<lambda>virality_packs'.
                      Inr \<lparr>overall_sentiment_score = overall_sentiment_score',
                           overall_virality_potential = overall_virality_potential',
                           key_insights =
                             (if isArray (property parsed ''key_insights'')
                              then elements (property parsed ''key_insights'') else []),
                           virality_packs = virality_packs',
                           recommendations =
                             (if isArray (property parsed ''recommendations'')
                              then elements (property parsed ''recommendations'') else [])\<rparr>)))))"

definition parseViralityAnalysis :: "platform \<Rightarrow> string \<Rightarrow> ViralityAnalysisOutput" where
  "parseViralityAnalysis pf response =
     (case parseViralityAnalysis_try pf response of
        Inl error \<Rightarrow> getFallbackAnalysis
      | Inr analysis \<Rightarrow> analysis)"




section \<open>Scraper dispatch (src/lib/product-service.ts, scraping service)\<close>

text \<open>
  The part of \<open>new URL(url)\<close> that the scrapers read; the constructor is the runtime's
  and a parameter of the model, \<open>None\<close> when it raises on an invalid URL.
\<close>

record URL =
  hostname :: string
  pathname :: string

datatype scraper = TikTokShopScraper | AmazonScraper | AliExpressScraper | GenericExternalScraper

text \<open>\<open>canHandle\<close> of each class; \<open>try { ... } catch { return false }\<close>.\<close>

fun canHandle :: "(string \<Rightarrow> URL option) \<Rightarrow> scraper \<Rightarrow> string \<Rightarrow> bool" where
  "canHandle new_URL TikTokShopScraper url =
     (case new_URL url of
        None \<Rightarrow> False
      | Some urlObj \<Rightarrow>
          string_includes (hostname urlObj) ''tiktok.com'' \<and> string_includes (pathname urlObj) ''/shop/'')"
| "canHandle new_URL AmazonScraper url =
     (case new_URL url of
        None \<Rightarrow> False
      | Some urlObj \<Rightarrow>
          string_includes (hostname urlObj) ''amazon.com'' \<or> string_includes (hostname urlObj) ''amzn.to'')"
| "canHandle new_URL AliExpressScraper url =
     (case new_URL url of
        None \<Rightarrow> False
      | Some urlObj \<Rightarrow>
          string_includes (hostname urlObj) ''aliexpress.com''
          \<or> string_includes (hostname urlObj) ''s.click.aliexpress.com'')"
| "canHandle new_URL GenericExternalScraper url = True"

text \<open>The list the constructor of \<open>ScrapingManager\<close> builds.\<close>

definition scrapers :: "scraper list" where
  "scrapers = [TikTokShopScraper, AmazonScraper, AliExpressScraper, GenericExternalScraper]"

text \<open>
  \<open>ScrapingResult\<close>; the product data, the reviews and the warning of a scraper are
  kept together as \<open>scraped\<close>.  What a scraper's own \<open>scrapeProduct\<close> raises is an
  \<open>Error\<close> with its message, or something else.
\<close>

record 'd ScrapingResult =
  success :: bool
  scraped :: "'d option"
  error :: "string option"

datatype raised = Raised_Error string | Raised_other

text \<open>
  \<open>ScrapingManager.scrapeProduct\<close>; \<open>run\<close> is \<open>scrapeProduct\<close> of the selected
  scraper (mock data in this repository).
\<close>

definition scrapeProduct ::
  "(string \<Rightarrow> URL option) \<Rightarrow> (scraper \<Rightarrow> string \<Rightarrow> raised + 'd ScrapingResult) \<Rightarrow> string
     \<Rightarrow> 'd ScrapingResult" where
  "scrapeProduct new_URL run url =
     (case find (\<lambda>s. canHandle new_URL s url) scrapers of
        None \<Rightarrow> \<lparr>success = False, scraped = None,
                  error = Some ''No suitable scraper found for this URL''\<rparr>
      | Some scraper \<Rightarrow>
          (case run scraper url of
             Inr result \<Rightarrow> result
           | Inl (Raised_Error msg) \<Rightarrow> \<lparr>success = False, scraped = None, error = Some msg\<rparr>
           | Inl Raised_other \<Rightarrow> \<lparr>success = False, scraped = None, error = Some ''Scraping failed''\<rparr>))"


section \<open>Insight aggregation (src/lib/supabase-server.ts, IngestionService)\<close>

text \<open>
  The fields of \<open>ScrapedReviewData\<close> that \<open>processReviews\<close> reads, the value of a
  map entry, and an entry of the result, whose fields \<open>sentiment\<close> and \<open>mentions\<close> are
  \<open>insight_sentiment\<close> and \<open>insight_mentions\<close> here.
\<close>

record ScrapedReviewData =
  rating :: number
  title :: "string option"
  content :: string

record bucket =
  sentiment :: number
  mentions :: nat
  quotes :: "string list"

record ThemeInsight =
  theme :: string
  insight_sentiment :: number
  insight_mentions :: nat
  example_quotes :: "string list"

record ProcessedInsights =
  pain_points :: "ThemeInsight list"
  delight_factors :: "ThemeInsight list"

text \<open>\<open>calculateSentiment\<close>: \<open>(rating - 3) / 2\<close>.\<close>

definition calculateSentiment :: "(number \<Rightarrow> number) \<Rightarrow> number \<Rightarrow> number" where
  "calculateSentiment rnd r = rnd (rnd (r - 3) / 2)"

text \<open>
  \<open>extractThemes\<close>.  Each test is \<open>content.match(/w1|w2|.../i)\<close>, an alternation of
  literal texts without anchors: it succeeds exactly when one of the texts occurs in the
  content, letters compared without case.  The table lists the tests in the order of the
  source.
\<close>

definition theme_table :: "(string list \<times> string) list" where
  "theme_table =
    [([''taste'', ''flavor'', ''gross'', ''delicious'', ''yummy'', ''awful'', ''good'', ''bad''],
      ''taste_quality''),
     ([''price'', ''cost'', ''expensive'', ''cheap'', ''worth'', ''value'', ''money''],
      ''price_value''),
     ([''work'', ''result'', ''effect'', ''effective'', ''useless'', ''help'', ''improve'', ''better'',
       ''worse''],
      ''effectiveness''),
     ([''quality'', ''build'', ''durable'', ''cheaply'', ''sturdy'', ''fragile'', ''well-made'',
       ''poorly-made''],
      ''build_quality''),
     ([''service'', ''support'', ''customer'', ''help'', ''response'', ''reply'', ''company'',
       ''seller''],
      ''customer_service''),
     ([''shipping'', ''delivery'', ''arrive'', ''package'', ''box'', ''damaged'', ''fast'', ''slow''],
      ''shipping_delivery''),
     ([''easy'', ''difficult'', ''hard'', ''simple'', ''complicated'', ''use'', ''operate'', ''setup''],
      ''ease_of_use''),
     ([''size'', ''fit'', ''large'', ''small'', ''big'', ''tight'', ''loose'', ''comfortable'',
       ''uncomfortable''],
      ''size_fit''),
     ([''battery'', ''charge'', ''last'', ''long'', ''short'', ''power'', ''dead''],
      ''battery_life''),
     ([''look'', ''appearance'', ''color'', ''design'', ''beautiful'', ''ugly'', ''attractive'',
       ''stylish''],
      ''appearance''),
     ([''smell'', ''odor'', ''scent'', ''aroma'', ''fragrance'', ''stink'', ''fresh'', ''bad smell''],
      ''smell_aroma'')]"

definition matches_any :: "string \<Rightarrow> string list \<Rightarrow> bool" where
  "matches_any s words =
     list_ex (\<lambda>w. string_includes (map foldCase s) (map foldCase w)) words"

definition extractThemes :: "string \<Rightarrow> string list" where
  "extractThemes s =
     (let themes = fold (\<lambda>(words, name) themes.
                      if matches_any s words then themes @ [name] else themes) theme_table []
      in if length themes > 0 then themes else [''general_experience''])"

text \<open>
  The \<open>Map\<close> of a bucket per theme, in insertion order: \<open>has\<close>, \<open>set\<close> of a fresh
  bucket, \<open>get\<close>, and the three updates of the bucket.
\<close>

fun add_mention ::
  "(number \<Rightarrow> number) \<Rightarrow> string \<Rightarrow> number \<Rightarrow> string \<Rightarrow> (string \<times> bucket) list
     \<Rightarrow> (string \<times> bucket) list" where
  "add_mention rnd name s quote [] =
     [(name, \<lparr>sentiment = rnd (0 + s), mentions = 0 + 1, quotes = [] @ [quote]\<rparr>)]"
| "add_mention rnd name s quote ((k, b) # m) =
     (if k = name
      then (k, \<lparr>sentiment = rnd (sentiment b + s), mentions = mentions b + 1,
                quotes = quotes b @ [quote]\<rparr>) # m
      else (k, b) # add_mention rnd name s quote m)"

text \<open>The body of the loop over the themes of one review.\<close>

definition route ::
  "(number \<Rightarrow> number) \<Rightarrow> number \<Rightarrow> string \<Rightarrow> string
     \<Rightarrow> (string \<times> bucket) list \<times> (string \<times> bucket) list
     \<Rightarrow> (string \<times> bucket) list \<times> (string \<times> bucket) list" where
  "route rnd s quote name maps =
     (case maps of (painPoints, delightFactors) \<Rightarrow>
        if s < 0 then (add_mention rnd name s quote painPoints, delightFactors)
        else if s > rnd (3 / 10) then (painPoints, add_mention rnd name s quote delightFactors)
        else (painPoints, delightFactors))"

text \<open>
  The conversion of a map to the final list: the average, at most three quotes, the
  filter, and the stable sort by mentions, largest first.
\<close>

definition finish :: "(number \<Rightarrow> number) \<Rightarrow> (string \<times> bucket) list \<Rightarrow> ThemeInsight list" where
  "finish rnd m =
     sort_key (\<lambda>p. - int (insight_mentions p))
       (filter (\<lambda>p. insight_mentions p \<ge> 1)
         (map (\<lambda>(name, b). \<lparr>theme = name,
                    insight_sentiment = rnd (sentiment b / of_nat (mentions b)),
                    insight_mentions = mentions b,
                    example_quotes = take 3 (quotes b)\<rparr>) m))"

text \<open>
  \<open>processReviews\<close>.  \<open>transformQuote\<close> rewrites the text of a quote and has no part in
  themes, sentiments or mentions; it is a parameter here.
\<close>

definition processReviews ::
  "(number \<Rightarrow> number) \<Rightarrow> (string \<Rightarrow> string) \<Rightarrow> (string \<Rightarrow> string option \<Rightarrow> string)
     \<Rightarrow> ScrapedReviewData list \<Rightarrow> ProcessedInsights" where
  "processReviews rnd toLowerCase transformQuote reviews =
     (case fold (\<lambda>review maps.
              let s = calculateSentiment rnd (rating review);
                  themes = extractThemes (toLowerCase (content review))
              in fold (\<lambda>name maps.
                     route rnd s (transformQuote (content review) (title review)) name maps)
                   themes maps)
            reviews ([], []) of
        (painPoints, delightFactors) \<Rightarrow>
          \<lparr>pain_points = finish rnd painPoints, delight_factors = finish rnd delightFactors\<rparr>)"


text \<open>A pattern is productive when each alternative starts with a non-empty literal.\<close>

fun productive_alt :: "atom list \<Rightarrow> bool" where
  "productive_alt (Lit l # rest) = (l \<noteq> [])"
| "productive_alt _ = False"

definition productive :: "regex \<Rightarrow> bool" where
  "productive re = list_all productive_alt re"


section \<open>Inputs used in the examples\<close>

text \<open>
  A flag of severity \<open>low\<close>: the advisory that \<open>checkBrandRules\<close> pushes when no
  required keyword occurs (it has no position).
\<close>

definition low_flag :: ComplianceFlag where
  "low_flag = \<lparr>ftype = Brand_rule, severity = Low, message = ''Consider including required brand keywords'',
      suggestion = Some ''Try to include: vegan'', position = None\<rparr>"



text \<open>
  A high-severity and a medium-severity flag, as \<open>analyzeScript\<close> builds them from the
  first and the fifth rule of the table.
\<close>

definition high_flag :: ComplianceFlag where
  \<open>high_flag = \<lparr>ftype = Tos_violation, severity = High, message = ''Avoid making absolute guarantees'',
      suggestion = Some ''Use "may help" or "can support" instead of guarantees'',
      position = Some \<lparr>start = 0, end' = 9\<rparr>\<rparr>\<close>

definition medium_flag :: ComplianceFlag where
  \<open>medium_flag = \<lparr>ftype = Tos_violation, severity = Medium,
      message = ''Sales pressure language may be restricted'',
      suggestion = Some ''Focus on product benefits rather than direct sales language'',
      position = Some \<lparr>start = 10, end' = 14\<rparr>\<rparr>\<close>


text \<open>
  \<open>String.prototype.toLowerCase\<close> on a string of ASCII characters: the letters \<open>A\<close> to
  \<open>Z\<close> become \<open>a\<close> to \<open>z\<close>.  The examples below, all of them in ASCII, use it as
  the runtime's function.
\<close>

definition toLowerCase_ASCII :: "string \<Rightarrow> string" where
  "toLowerCase_ASCII s = map foldCase s"

text \<open>
  A script in which the word \<open>sale\<close> stands three times, brand rules that forbid it
  and require two keywords the script lacks, and the fifth rule of the table (sales
  pressure), whose pattern has \<open>sale\<close> as an alternative.
\<close>

definition sale_script :: string where
  "sale_script = ''Sale, sale, SALE''"

definition sale_rules :: BrandRule where
  "sale_rules = \<lparr>forbidden_keywords = [''sale''], required_keywords = [''vegan'', ''organic''],
                  custom_rules = []\<rparr>"





text \<open>
  The runtime on the texts of the examples: what \<open>JSON.parse\<close> returns for each of
  them.  The two conversions are not consulted on these inputs.
\<close>

definition empty_object_text :: string where
  \<open>empty_object_text = ''{}''\<close>

definition negative_potential_text :: string where
  \<open>negative_potential_text = ''{"overall_virality_potential": -0.7}''\<close>

definition four_hooks_pack :: json where
  "four_hooks_pack =
     JObject [(''hook_options'', JArray [JString ''a'', JString ''b'', JString ''c'', JString ''d'']),
              (''virality_score'', JNumber (Num (- 1 / 2)))]"

definition four_hooks_text :: string where
  \<open>four_hooks_text = ''{"virality_packs": [{"hook_options": ["a", "b", "c", "d"], "virality_score": -0.5}]}''\<close>

definition toString_score_text :: string where
  \<open>toString_score_text = ''{"overall_sentiment_score": {"toString": 1}}''\<close>

definition example_platform :: platform where
  "example_platform =
     \<lparr>JSON_parse = (\<lambda>s.
        if s = empty_object_text then Some (JObject [])
        else if s = negative_potential_text
          then Some (JObject [(''overall_virality_potential'', JNumber (Num (- 7 / 10)))])
        else if s = four_hooks_text
          then Some (JObject [(''virality_packs'', JArray [four_hooks_pack])])
        else if s = toString_score_text
          then Some (JObject [(''overall_sentiment_score'', JObject [(''toString'', JNumber (Num 1))])])
        else None),
      String_of = (\<lambda>v. []),
      StringToNumber = (\<lambda>s. NaN)\<rparr>"



text \<open>The three reviews of the end-to-end scenario of the specification.\<close>

definition taste_reviews :: "ScrapedReviewData list" where
  "taste_reviews =
     [\<lparr>rating = 5, title = None, content = ''amazing taste and great energy''\<rparr>,
      \<lparr>rating = 1, title = None, content = ''terrible taste, waste of money''\<rparr>,
      \<lparr>rating = 2, title = None, content = ''bad taste''\<rparr>]"


section \<open>Properties of the rounding\<close>

lemma exponent_bounds:
  "0 < q \<Longrightarrow> 2 powi (exponent q) \<le> q \<and> q < 2 powi (exponent q + 1)"
proof (induction q rule: exponent.induct)
  case (1 q)
  show ?case
  proof (cases "2 \<le> q")
    case True
    then have e: "exponent q = exponent (q / 2) + 1" using 1(3) by (subst exponent.simps) simp
    have ih: "2 powi (exponent (q / 2)) \<le> q / 2 \<and> q / 2 < 2 powi (exponent (q / 2) + 1)"
      using 1(1) True 1(3) by simp
    have p: "(2::rat) powi (exponent (q / 2) + 1) = 2 powi (exponent (q / 2)) * 2"
      by (simp add: power_int_add)
    have p2: "(2::rat) powi (exponent (q / 2) + 1 + 1) = 2 powi (exponent (q / 2) + 1) * 2"
      by (simp add: power_int_add)
    show ?thesis unfolding e using ih p p2 by simp
  next
    case False
    show ?thesis
    proof (cases "q < 1")
      case True
      then have e: "exponent q = exponent (2 * q) - 1" using 1(3) False by (subst exponent.simps) simp
      have ih: "2 powi (exponent (2 * q)) \<le> 2 * q \<and> 2 * q < 2 powi (exponent (2 * q) + 1)"
        using 1(2) True False 1(3) by simp
      have p: "(2::rat) powi (exponent (2 * q)) = 2 powi (exponent (2 * q) - 1) * 2"
        by (simp add: power_int_diff)
      have p2: "(2::rat) powi (exponent (2 * q) + 1) = 2 powi (exponent (2 * q)) * 2"
        by (simp add: power_int_add)
      show ?thesis unfolding e using ih p p2 by simp
    next
      case nl: False
      then have e: "exponent q = 0" using 1(3) False by (subst exponent.simps) simp
      show ?thesis unfolding e using nl False by simp
    qed
  qed
qed

lemma round_half_even_ge:
  assumes "of_int m \<le> q"
  shows "m \<le> round_half_even q"
proof -
  have "m \<le> \<lfloor>q\<rfloor>" using assms by (simp add: le_floor_iff)
  then show ?thesis by (auto simp: round_half_even_def Let_def)
qed

lemma binary64_pos:
  assumes "0 < x"
  shows "binary64 x = of_int (round_half_even (x / 2 powi (exponent x - 52))) * 2 powi (exponent x - 52)"
  using assms by (simp add: binary64_def Let_def)

lemma round_scaled_ge:
  fixes u :: rat
  assumes "0 < u" "of_int m * u \<le> x"
  shows "of_int m * u \<le> of_int (round_half_even (x / u)) * u"
proof -
  have "of_int m \<le> x / u" using assms by (simp add: pos_le_divide_eq)
  then have "m \<le> round_half_even (x / u)" by (rule round_half_even_ge)
  then have "(of_int m :: rat) \<le> of_int (round_half_even (x / u))" by simp
  then show ?thesis using assms(1) by (simp add: mult_right_mono)
qed

lemma two_powi_52: "of_int (2 ^ 52) * (2::rat) powi (k - 52) = 2 powi k"
proof -
  have "(2::rat) powi 52 * 2 powi (k - 52) = 2 powi (52 + (k - 52))"
    by (rule power_int_add[symmetric]) simp
  moreover have "52 + (k - 52) = k" by simp
  ultimately have "(2::rat) powi 52 * 2 powi (k - 52) = 2 powi k" by (simp only:)
  then show ?thesis by simp
qed

lemma two_powi_53: "of_int (2 ^ 53) * (2::rat) powi (k - 52) = 2 powi (k + 1)"
proof -
  have "(2::rat) powi 53 * 2 powi (k - 52) = 2 powi (53 + (k - 52))"
    by (rule power_int_add[symmetric]) simp
  moreover have "53 + (k - 52) = k + 1" by simp
  ultimately have "(2::rat) powi 53 * 2 powi (k - 52) = 2 powi (k + 1)" by (simp only:)
  then show ?thesis by simp
qed

lemma binary64_ge:
  assumes m: "2 ^ 52 \<le> m" "m < 2 ^ 53"
    and le: "of_int m * 2 powi (e - 52) \<le> x"
  shows "of_int m * 2 powi (e - 52) \<le> binary64 x"
proof -
  let ?c = "of_int m * (2::rat) powi (e - 52)"
  have upos: "\<And>k. 0 < (2::rat) powi k" by simp
  have "(of_int (2 ^ 52) :: rat) \<le> of_int m" using m(1) by (simp only: of_int_le_iff)
  then have "of_int (2 ^ 52) * (2::rat) powi (e - 52) \<le> ?c"
    by (rule mult_right_mono) simp
  then have c_lo: "(2::rat) powi e \<le> ?c" by (simp only: two_powi_52)
  have "(of_int m :: rat) < of_int (2 ^ 53)" using m(2) by (simp only: of_int_less_iff)
  then have "?c < of_int (2 ^ 53) * (2::rat) powi (e - 52)"
    by (rule mult_strict_right_mono) simp
  then have c_hi: "?c < (2::rat) powi (e + 1)" by (simp only: two_powi_53)
  have cpos: "0 < ?c" using c_lo upos[of e] by linarith
  then have xpos: "0 < x" using le by linarith
  let ?ex = "exponent x"
  let ?u = "(2::rat) powi (?ex - 52)"
  have xb: "2 powi ?ex \<le> x" "x < 2 powi (?ex + 1)" using exponent_bounds[OF xpos] by simp_all
  have elt: "(2::rat) powi e < 2 powi (?ex + 1)" using c_lo le xb(2) by linarith
  have ele: "e \<le> ?ex"
  proof (rule ccontr)
    assume "\<not> e \<le> ?ex"
    then have "?ex + 1 \<le> e" by simp
    then have "(2::rat) powi (?ex + 1) \<le> 2 powi e" by (rule power_int_increasing) simp
    with elt show False by linarith
  qed
  have b: "binary64 x = of_int (round_half_even (x / ?u)) * ?u"
    by (rule binary64_pos[OF xpos])
  show ?thesis
  proof (cases "e = ?ex")
    case True
    have "of_int m * ?u \<le> x" using le True by simp
    then have "of_int m * ?u \<le> of_int (round_half_even (x / ?u)) * ?u"
      by (rule round_scaled_ge[OF upos])
    then show ?thesis using b True by simp
  next
    case False
    then have lt: "e + 1 \<le> ?ex" using ele by simp
    have "of_int (2 ^ 52) * ?u \<le> x" using xb(1) by (simp only: two_powi_52)
    then have "of_int (2 ^ 52) * ?u \<le> of_int (round_half_even (x / ?u)) * ?u"
      by (rule round_scaled_ge[OF upos])
    then have "(2::rat) powi ?ex \<le> binary64 x" unfolding b by (simp only: two_powi_52)
    moreover have "(2::rat) powi (e + 1) \<le> 2 powi ?ex" using lt by (simp add: power_int_increasing)
    ultimately show ?thesis using c_hi by linarith
  qed
qed

lemma binary64_nonneg:
  assumes "0 \<le> x"
  shows "0 \<le> binary64 x"
proof (cases "x = 0")
  case True
  then show ?thesis by (simp add: binary64_def)
next
  case False
  then have xpos: "0 < x" using assms by simp
  have "of_int 0 \<le> x / 2 powi (exponent x - 52)" using xpos by simp
  then have "0 \<le> round_half_even (x / 2 powi (exponent x - 52))" by (rule round_half_even_ge)
  then show ?thesis using binary64_pos[OF xpos] by simp
qed

text \<open>The doubles that the scorer meets on the inputs used below, one rounding at a time.\<close>

lemma binary64_0: "binary64 0 = 0"
  by (simp add: binary64_def)

lemma binary64_1: "binary64 1 = 1"
  by code_simp

lemma binary64_005: "binary64 (5 / 100) = 3602879701896397 / 72057594037927936"
  by code_simp

lemma binary64_01: "binary64 (1 / 10) = 3602879701896397 / 36028797018963968"
  by code_simp

lemma binary64_03: "binary64 (3 / 10) = 5404319552844595 / 18014398509481984"
  by code_simp

lemma binary64_085: "binary64 (17 / 20) = 7656119366529843 / 9007199254740992"
  by code_simp

lemma binary64_sub1:
  "binary64 (1 - 3602879701896397 / 72057594037927936) = 4278419646001971 / 4503599627370496"
  by code_simp

lemma binary64_sub2:
  "binary64 (4278419646001971 / 4503599627370496 - 3602879701896397 / 72057594037927936)
   = 2026619832316723 / 2251799813685248"
  by code_simp

lemma binary64_sub3:
  "binary64 (2026619832316723 / 2251799813685248 - 3602879701896397 / 72057594037927936)
   = 3828059683264921 / 4503599627370496"
  by code_simp

lemma binary64_t3: "binary64 (3828059683264921 / 4503599627370496) = 3828059683264921 / 4503599627370496"
  by code_simp

lemma binary64_sub_high:
  "binary64 (1 - 5404319552844595 / 18014398509481984) = 3152519739159347 / 4503599627370496"
  by code_simp

lemma binary64_add_bonus:
  "binary64 (3152519739159347 / 4503599627370496 + 3602879701896397 / 36028797018963968)
   = 7205759403792793 / 9007199254740992"
  by code_simp

lemma binary64_one_high:
  "binary64 (binary64 (1 - binary64 (3 / 10)) + min (binary64 (1 / 10)) (binary64 (of_nat 1000 / 1000)))
   = 7205759403792793 / 9007199254740992"
proof -
  have "(of_nat 1000 / 1000 :: rat) = 1" by simp
  then have "min (binary64 (1 / 10)) (binary64 (of_nat 1000 / 1000))
      = (3602879701896397 / 36028797018963968 :: rat)"
    by (simp add: binary64_01 binary64_1)
  then show ?thesis
    by (simp only: binary64_03 binary64_sub_high binary64_add_bonus)
qed

lemma binary64_015: "binary64 (15 / 100) = 5404319552844595 / 36028797018963968"
  by code_simp

lemma binary64_sub_medium:
  "binary64 (3152519739159347 / 4503599627370496 - 5404319552844595 / 36028797018963968)
   = 4953959590107545 / 9007199254740992"
  by code_simp

lemma binary64_0005: "binary64 (1 / 200) = 5764607523034235 / 1152921504606846976"
  by code_simp

lemma binary64_add_0005:
  "binary64 (4953959590107545 / 9007199254740992 + 5764607523034235 / 1152921504606846976)
   = 2499497793190625 / 4503599627370496"
  by code_simp

lemma binary64_0555: "binary64 (111 / 200) = 4998995586381251 / 9007199254740992"
  by code_simp

lemma binary64_08: "binary64 (4 / 5) = 3602879701896397 / 4503599627370496"
  by code_simp

lemma b_chain1: "binary64 (1 - binary64 (5 / 100)) = 4278419646001971 / 4503599627370496"
  by (simp only: binary64_005 binary64_sub1)

lemma b_chain2: "binary64 (binary64 (1 - binary64 (5 / 100)) - binary64 (5 / 100))
   = 2026619832316723 / 2251799813685248"
  by (simp only: binary64_005 binary64_sub1 binary64_sub2)

lemma b_chain3: "binary64 (binary64 (binary64 (1 - binary64 (5 / 100)) - binary64 (5 / 100)) - binary64 (5 / 100))
   = 3828059683264921 / 4503599627370496"
  by (simp only: binary64_005 binary64_sub1 binary64_sub2 binary64_sub3)

lemma b_t3_0: "binary64 (3828059683264921 / 4503599627370496 + min (binary64 (1 / 10)) (binary64 (of_nat 0 / 1000)))
   = 3828059683264921 / 4503599627370496"
proof -
  have "min (binary64 (1 / 10)) (binary64 (of_nat 0 / 1000)) = (0 :: rat)"
    by (simp add: binary64_01 binary64_0)
  then show ?thesis by (simp add: binary64_t3)
qed

lemma funpow_1: "((f::'a \<Rightarrow> 'a) ^^ 1) a = f a" by simp
lemma funpow_2: "((f::'a \<Rightarrow> 'a) ^^ 2) a = f (f a)" by (simp add: numeral_2_eq_2)
lemma funpow_3: "((f::'a \<Rightarrow> 'a) ^^ 3) a = f (f (f a))" by (simp add: numeral_3_eq_3)

lemma binary64_ge_t3:
  assumes "3828059683264921 / 4503599627370496 \<le> x"
  shows "3828059683264921 / 4503599627370496 \<le> binary64 x"
proof -
  have "of_int 7656119366529842 * 2 powi (- 1 - 52) \<le> binary64 x"
  proof (rule binary64_ge)
    show "(2::int) ^ 52 \<le> 7656119366529842" by simp
    show "(7656119366529842::int) < 2 ^ 53" by simp
    show "of_int 7656119366529842 * 2 powi (- 1 - 52) \<le> x" using assms by simp
  qed
  then show ?thesis by simp
qed

lemma lengthBonus_nonneg: "0 \<le> min (binary64 (1 / 10)) (binary64 (of_nat n / 1000))"
proof -
  have "0 \<le> binary64 (of_nat n / 1000)" by (rule binary64_nonneg) simp
  moreover have "0 \<le> binary64 (1 / 10)" by (rule binary64_nonneg) simp
  ultimately show ?thesis by simp
qed



text \<open>The relative error of one rounding is at most \<open>2 ^ -53\<close>.\<close>

lemma round_half_even_err: "\<bar>of_int (round_half_even q) - q\<bar> \<le> 1 / 2"
proof -
  have "of_int \<lfloor>q\<rfloor> \<le> q" "q < of_int \<lfloor>q\<rfloor> + 1" by linarith+
  then show ?thesis by (auto simp: round_half_even_def Let_def)
qed

lemma binary64_rel_err: "\<bar>binary64 x - x\<bar> \<le> \<bar>x\<bar> / 2 ^ 53"
proof (cases "x = 0")
  case True
  then show ?thesis by (simp add: binary64_def)
next
  case False
  let ?a = "\<bar>x\<bar>"
  let ?e = "exponent ?a"
  let ?u = "(2::rat) powi (?e - 52)"
  let ?r = "round_half_even (?a / ?u)"
  have apos: "0 < ?a" using False by simp
  have upos: "0 < ?u" by simp
  have b: "binary64 x = sgn x * of_int ?r * ?u" using False by (simp add: binary64_def Let_def)
  have x: "x = sgn x * ?a" by (simp add: sgn_mult_abs)
  have "binary64 x - x = sgn x * (of_int ?r * ?u - ?a)"
    by (subst (2) x) (simp add: b algebra_simps)
  then have "\<bar>binary64 x - x\<bar> = \<bar>of_int ?r * ?u - ?a\<bar>"
    using False by (simp add: abs_mult abs_sgn_eq)
  also have "of_int ?r * ?u - ?a = (of_int ?r - ?a / ?u) * ?u" by (simp add: algebra_simps)
  also have "\<bar>\<dots>\<bar> = \<bar>of_int ?r - ?a / ?u\<bar> * ?u" by (simp add: abs_mult)
  also have "\<dots> \<le> 1 / 2 * ?u"
    by (rule mult_right_mono[OF round_half_even_err]) simp
  finally have 1: "\<bar>binary64 x - x\<bar> \<le> ?u / 2" by simp
  have "2 powi ?e \<le> ?a" using exponent_bounds[OF apos] by simp
  then have "of_int (2 ^ 52) * ?u \<le> ?a" by (simp only: two_powi_52)
  then have "?u / 2 \<le> ?a / 2 ^ 53" by simp
  with 1 show ?thesis by linarith
qed

lemma binary64_abs_le: "\<bar>binary64 x\<bar> \<le> \<bar>x\<bar> + \<bar>x\<bar> / 2 ^ 53"
  using binary64_rel_err[of x] by linarith

lemma binary64_01_ge:
  assumes "101 / 1000 \<le> x"
  shows "binary64 (1 / 10) \<le> binary64 x"
proof -
  have "of_int 7205759403792794 * 2 powi (- 4 - 52) \<le> binary64 x"
  proof (rule binary64_ge)
    show "(2::int) ^ 52 \<le> 7205759403792794" by simp
    show "(7205759403792794::int) < 2 ^ 53" by simp
    show "of_int 7205759403792794 * 2 powi (- 4 - 52) \<le> x" using assms by simp
  qed
  then show ?thesis by (simp add: binary64_01)
qed

lemma lengthBonus_err:
  "\<bar>min (binary64 (1 / 10)) (binary64 (of_nat n / 1000)) - min (1 / 10) (of_nat n / 1000)\<bar> \<le> 1 / 2 ^ 53"
proof -
  let ?c = "binary64 (1 / 10)" and ?x = "of_nat n / 1000 :: rat"
  have c: "?c = 3602879701896397 / 36028797018963968" by (rule binary64_01)
  consider "n < 100" | "n = 100" | "101 \<le> n" by linarith
  then show ?thesis
  proof cases
    case 1
    then have "(of_nat n :: rat) < of_nat 100" by (simp only: of_nat_less_iff)
    then have x: "?x < 1 / 10" "0 \<le> ?x" by simp_all
    have "\<bar>binary64 ?x - ?x\<bar> \<le> \<bar>?x\<bar> / 2 ^ 53" by (rule binary64_rel_err)
    then have e: "\<bar>binary64 ?x - ?x\<bar> \<le> 1 / 10 / 2 ^ 53" using x by simp
    have m: "min (1 / 10) ?x = ?x" using x by simp
    have e': "\<bar>binary64 ?x - ?x\<bar> \<le> 1 / 2 ^ 53"
    proof -
      have "(1 / 10 / 2 ^ 53 :: rat) \<le> 1 / 2 ^ 53" by simp
      with e show ?thesis by linarith
    qed
    show ?thesis
    proof (cases "binary64 ?x \<le> ?c")
      case True
      then have "min ?c (binary64 ?x) = binary64 ?x" by (simp add: min_def)
      then show ?thesis using e' by (simp only: m)
    next
      case False
      then have mc: "min ?c (binary64 ?x) = ?c" by (simp add: min_def)
      have xc: "?x < ?c" using x c by simp
      have "\<bar>?c - ?x\<bar> \<le> \<bar>binary64 ?x - ?x\<bar>" using False xc by linarith
      then have "\<bar>?c - ?x\<bar> \<le> 1 / 2 ^ 53" using e' by linarith
      then show ?thesis by (simp only: mc m)
    qed
  next
    case 2
    then have "?x = 1 / 10" by simp
    then show ?thesis by (simp add: c)
  next
    case 3
    then have "(of_nat 101 :: rat) \<le> of_nat n" by (simp only: of_nat_le_iff)
    then have x: "101 / 1000 \<le> ?x" by simp
    from binary64_01_ge[OF x] have "min ?c (binary64 ?x) = ?c" by simp
    moreover have "min (1 / 10) ?x = 1 / 10" using x by simp
    ultimately show ?thesis by (simp add: c)
  qed
qed

lemma lengthBonus_le: "min (binary64 (1 / 10)) (binary64 (of_nat n / 1000)) \<le> 1 / 2"
  by (simp add: binary64_01 min_le_iff_disj)



section \<open>Properties of the compliance scorer\<close>

lemma fold_weight_exact:
  "fold (\<lambda>flag t. exact (t - weight exact flag)) flags a =
     a - 3 / 10 * of_nat (count_severity High flags)
       - 15 / 100 * of_nat (count_severity Medium flags)
       - 5 / 100 * of_nat (count_severity Low flags)"
proof (induction flags arbitrary: a)
  case Nil
  show ?case by (simp add: count_severity_def)
next
  case (Cons f fs)
  have "fold (\<lambda>flag t. exact (t - weight exact flag)) (f # fs) a =
        fold (\<lambda>flag t. exact (t - weight exact flag)) fs (a - weight exact f)"
    by (simp add: exact_def)
  also have "\<dots> = a - weight exact f - 3 / 10 * of_nat (count_severity High fs)
       - 15 / 100 * of_nat (count_severity Medium fs)
       - 5 / 100 * of_nat (count_severity Low fs)"
    by (rule Cons.IH)
  also have "\<dots> = a - 3 / 10 * of_nat (count_severity High (f # fs))
       - 15 / 100 * of_nat (count_severity Medium (f # fs))
       - 5 / 100 * of_nat (count_severity Low (f # fs))"
    by (cases "severity f") (simp_all add: count_severity_def weight_def exact_def algebra_simps)
  finally show ?case .
qed

lemma count_severity_Nil: "count_severity s [] = 0"
  by (simp add: count_severity_def)


lemma score_exact_closed_form:
  "calculateComplianceScore exact flags n =
     max 0 (min 1 (1 - 3 / 10 * of_nat (count_severity High flags)
                     - 15 / 100 * of_nat (count_severity Medium flags)
                     - 5 / 100 * of_nat (count_severity Low flags)
                     + min (1 / 10) (of_nat n / 1000)))"
proof (cases flags)
  case Nil
  have "(0::rat) \<le> min (1 / 10) (of_nat n / 1000)" by simp
  then show ?thesis using Nil
    by (simp add: calculateComplianceScore_def count_severity_Nil)
next
  case (Cons f fs)
  then have "length flags \<noteq> 0" by simp
  then show ?thesis
    unfolding calculateComplianceScore_def Let_def
    by (simp only: fold_weight_exact if_False) (simp add: exact_def)
qed

lemma score_in_unit_interval:
  "0 \<le> calculateComplianceScore rnd flags n \<and> calculateComplianceScore rnd flags n \<le> 1"
  by (simp add: calculateComplianceScore_def Let_def)

lemma low_flags:
  assumes "determineRiskLevel flags = Low"
  shows "(\<forall>f\<in>set flags. severity f = Low) \<and> length flags \<le> 3"
proof -
  have h: "filter (\<lambda>f. severity f = High) flags = []" and m: "filter (\<lambda>f. severity f = Medium) flags = []"
    and l: "length flags \<le> 3"
    using assms by (auto simp: determineRiskLevel_def Let_def split: if_splits)
  have "\<forall>f\<in>set flags. severity f = Low"
  proof
    fix f assume "f \<in> set flags"
    then have "severity f \<noteq> High" "severity f \<noteq> Medium"
      using h m by (auto simp: filter_empty_conv)
    then show "severity f = Low" by (cases "severity f") simp_all
  qed
  with l show ?thesis by simp
qed

lemma fold_low:
  assumes "\<forall>f\<in>set flags. severity f = Low"
  shows "fold (\<lambda>flag t. rnd (t - weight rnd flag)) flags a =
         ((\<lambda>t. rnd (t - rnd (5 / 100))) ^^ length flags) a"
  using assms
proof (induction flags arbitrary: a)
  case Nil
  show ?case by simp
next
  case (Cons f fs)
  then have "weight rnd f = rnd (5 / 100)" by (simp add: weight_def)
  then show ?case using Cons by (simp add: funpow_Suc_right del: funpow.simps)
qed

lemma score_low:
  assumes "\<forall>f\<in>set flags. severity f = Low" "flags \<noteq> []"
  shows "calculateComplianceScore rnd flags n =
     max 0 (min 1 (rnd (((\<lambda>t. rnd (t - rnd (5 / 100))) ^^ length flags) 1
        + min (rnd (1 / 10)) (rnd (of_nat n / 1000)))))"
  unfolding calculateComplianceScore_def Let_def fold_low[OF assms(1)]
  using assms(2) by simp


lemma low_score_binary64:
  assumes "determineRiskLevel flags = Low"
  shows "3828059683264921 / 4503599627370496 \<le> calculateComplianceScore binary64 flags n"
proof (cases "flags = []")
  case True
  then show ?thesis by (simp add: calculateComplianceScore_def)
next
  case False
  let ?b = "min (binary64 (1 / 10)) (binary64 (of_nat n / 1000))"
  let ?f = "\<lambda>t. binary64 (t - binary64 (5 / 100))"
  have lf: "\<forall>f\<in>set flags. severity f = Low" and len: "length flags \<le> 3"
    using low_flags[OF assms] by simp_all
  have "length flags \<noteq> 0" using False by simp
  then consider "length flags = 1" | "length flags = 2" | "length flags = 3"
    using len by arith
  then have tge: "3828059683264921 / 4503599627370496 \<le> (?f ^^ length flags) 1"
  proof cases
    case 1
    have "(?f ^^ length flags) 1 = 4278419646001971 / 4503599627370496"
      by (simp only: 1 funpow_1 b_chain1)
    then show ?thesis by simp
  next
    case 2
    have "(?f ^^ length flags) 1 = 2026619832316723 / 2251799813685248"
      by (simp only: 2 funpow_2 b_chain2)
    then show ?thesis by simp
  next
    case 3
    have "(?f ^^ length flags) 1 = 3828059683264921 / 4503599627370496"
      by (simp only: 3 funpow_3 b_chain3)
    then show ?thesis by simp
  qed
  have "3828059683264921 / 4503599627370496 \<le> (?f ^^ length flags) 1 + ?b"
    using tge lengthBonus_nonneg[of n] by linarith
  then have "3828059683264921 / 4503599627370496 \<le> binary64 ((?f ^^ length flags) 1 + ?b)"
    by (rule binary64_ge_t3)
  then have "3828059683264921 / 4503599627370496 \<le> max 0 (min 1 (binary64 ((?f ^^ length flags) 1 + ?b)))"
    by simp
  then show ?thesis by (simp only: score_low[OF lf False])
qed


lemma low_score_exact:
  assumes "determineRiskLevel flags = Low"
  shows "17 / 20 \<le> calculateComplianceScore exact flags n"
proof -
  have c: "count_severity High flags = 0" "count_severity Medium flags = 0" "length flags \<le> 3"
    using assms by (auto simp: determineRiskLevel_def count_severity_def Let_def split: if_splits)
  have "count_severity Low flags \<le> length flags" by (simp add: count_severity_def)
  then have l: "(of_nat (count_severity Low flags) :: rat) \<le> 3" using c(3) by simp
  have b: "(0::rat) \<le> min (1 / 10) (of_nat n / 1000)" by simp
  have "(17 / 20 :: rat) \<le> 1 - 5 / 100 * of_nat (count_severity Low flags) + min (1 / 10) (of_nat n / 1000)"
    using l b by linarith
  then show ?thesis
    using score_exact_closed_form[of flags n] c by simp
qed


text \<open>
  The distance between the score as binary64 computes it and the score of exact
  arithmetic: each subtraction, the bonus and the final addition round with a relative
  error of at most \<open>2 ^ -53\<close>, on values that stay below the number of flags plus 2.
\<close>

lemma weight_exact_range: "0 < weight exact f \<and> weight exact f \<le> 3 / 10"
  by (simp add: weight_def exact_def)

lemma weight_binary64_err: "\<bar>weight binary64 f - weight exact f\<bar> \<le> weight exact f / 2 ^ 53"
proof -
  have "\<bar>binary64 (weight exact f) - weight exact f\<bar> \<le> \<bar>weight exact f\<bar> / 2 ^ 53"
    by (rule binary64_rel_err)
  moreover have "weight binary64 f = binary64 (weight exact f)"
    by (simp add: weight_def exact_def)
  moreover have "0 < weight exact f" using weight_exact_range by simp
  ultimately show ?thesis by simp
qed

lemma weight_binary64_range: "0 \<le> weight binary64 f \<and> weight binary64 f \<le> 1 / 2"
proof -
  have e: "\<bar>weight binary64 f - weight exact f\<bar> \<le> weight exact f / 9007199254740992"
    using weight_binary64_err[of f] by simp
  have r: "0 < weight exact f" "weight exact f \<le> 3 / 10" using weight_exact_range[of f] by simp_all
  from e r show ?thesis by linarith
qed

lemma fold_binary64_err:
  fixes a A :: rat
  assumes "\<bar>a - A\<bar> \<le> (of_nat j * of_nat j + 2 * of_nat j) / 2 ^ 53"
    and "\<bar>a\<bar> \<le> 1 + of_nat j"
    and "j + length fs \<le> 2 ^ 32"
  shows "\<bar>fold (\<lambda>flag t. binary64 (t - weight binary64 flag)) fs a
          - fold (\<lambda>flag t. exact (t - weight exact flag)) fs A\<bar>
           \<le> (of_nat (j + length fs) * of_nat (j + length fs) + 2 * of_nat (j + length fs)) / 2 ^ 53
         \<and> \<bar>fold (\<lambda>flag t. binary64 (t - weight binary64 flag)) fs a\<bar> \<le> 1 + of_nat (j + length fs)"
  using assms
proof (induction fs arbitrary: a A j)
  case Nil
  then show ?case by simp
next
  case (Cons f fs)
  let ?w = "weight binary64 f" and ?W = "weight exact f"
  let ?a' = "binary64 (a - ?w)" and ?A' = "A - ?W"
  let ?j = "of_nat j :: rat"
  have jb: "?j \<le> 2 ^ 32"
  proof -
    have "j \<le> 2 ^ 32" using Cons.prems(3) by simp
    then have "(of_nat j :: rat) \<le> of_nat (2 ^ 32)" by (simp only: of_nat_le_iff)
    then show ?thesis by simp
  qed
  have j0: "0 \<le> ?j" by simp
  have w: "0 \<le> ?w" "?w \<le> 1 / 2" using weight_binary64_range[of f] by simp_all
  have W: "0 < ?W" "?W \<le> 3 / 10" using weight_exact_range[of f] by simp_all
  have we: "\<bar>?w - ?W\<bar> \<le> 3 / 10 / 2 ^ 53"
    using weight_binary64_err[of f] W by simp
  have d: "\<bar>a - ?w\<bar> \<le> ?j + 3 / 2" using Cons.prems(2) w by linarith
  have r: "\<bar>?a' - (a - ?w)\<bar> \<le> (?j + 3 / 2) / 2 ^ 53"
  proof -
    have "\<bar>?a' - (a - ?w)\<bar> \<le> \<bar>a - ?w\<bar> / 2 ^ 53" by (rule binary64_rel_err)
    also have "\<dots> \<le> (?j + 3 / 2) / 2 ^ 53" using d by (simp add: divide_right_mono)
    finally show ?thesis .
  qed
  have small: "(?j + 3 / 2) / 2 ^ 53 \<le> 1 / 2" using jb by simp
  have b': "\<bar>?a'\<bar> \<le> 1 + of_nat (Suc j)"
  proof -
    have "\<bar>?a'\<bar> \<le> \<bar>a - ?w\<bar> + (?j + 3 / 2) / 2 ^ 53" using r by linarith
    then have "\<bar>?a'\<bar> \<le> 2 + ?j" using d small by linarith
    then show ?thesis by simp
  qed
  have e': "\<bar>?a' - ?A'\<bar> \<le> (of_nat (Suc j) * of_nat (Suc j) + 2 * of_nat (Suc j)) / 2 ^ 53"
  proof -
    have "\<bar>?a' - ?A'\<bar> \<le> \<bar>?a' - (a - ?w)\<bar> + \<bar>a - A\<bar> + \<bar>?w - ?W\<bar>" by linarith
    also have "\<dots> \<le> (?j + 3 / 2) / 2 ^ 53 + (?j * ?j + 2 * ?j) / 2 ^ 53 + 3 / 10 / 2 ^ 53"
      using r Cons.prems(1) we by linarith
    also have "\<dots> = (?j * ?j + 3 * ?j + 18 / 10) / 2 ^ 53" by (simp add: field_simps)
    also have "\<dots> \<le> (?j * ?j + 4 * ?j + 3) / 2 ^ 53"
      using j0 by (intro divide_right_mono) simp_all
    also have "\<dots> = (of_nat (Suc j) * of_nat (Suc j) + 2 * of_nat (Suc j)) / 2 ^ 53"
      by (simp add: field_simps)
    finally show ?thesis .
  qed
  have l: "Suc j + length fs \<le> 2 ^ 32" using Cons.prems(3) by simp
  have "fold (\<lambda>flag t. binary64 (t - weight binary64 flag)) (f # fs) a
      = fold (\<lambda>flag t. binary64 (t - weight binary64 flag)) fs ?a'" by simp
  moreover have "fold (\<lambda>flag t. exact (t - weight exact flag)) (f # fs) A
      = fold (\<lambda>flag t. exact (t - weight exact flag)) fs ?A'" by (simp add: exact_def)
  moreover have "j + length (f # fs) = Suc j + length fs" by simp
  ultimately show ?case using Cons.IH[OF e' b' l] by (simp only:)
qed

lemma clamp_lipschitz: "\<bar>max 0 (min 1 (x::rat)) - max 0 (min 1 y)\<bar> \<le> \<bar>x - y\<bar>"
  unfolding max_def min_def by (simp split: if_splits)

lemma score_binary64_err:
  assumes "length flags \<le> 2 ^ 32"
  shows "\<bar>calculateComplianceScore binary64 flags n - calculateComplianceScore exact flags n\<bar>
         \<le> (of_nat (length flags) + 2) ^ 2 / 2 ^ 53"
proof (cases "flags = []")
  case True
  then show ?thesis by (simp add: calculateComplianceScore_def)
next
  case False
  let ?k = "of_nat (length flags) :: rat"
  let ?t = "fold (\<lambda>flag t. binary64 (t - weight binary64 flag)) flags 1"
  let ?T = "fold (\<lambda>flag t. exact (t - weight exact flag)) flags 1"
  let ?b = "min (binary64 (1 / 10)) (binary64 (of_nat n / 1000))"
  let ?B = "min (1 / 10) (of_nat n / 1000) :: rat"
  have kb: "?k \<le> 2 ^ 32"
  proof -
    have "(of_nat (length flags) :: rat) \<le> of_nat (2 ^ 32)" using assms by (simp only: of_nat_le_iff)
    then show ?thesis by simp
  qed
  have k0: "0 \<le> ?k" by simp
  have "\<bar>(1::rat) - 1\<bar> \<le> (of_nat 0 * of_nat 0 + 2 * of_nat 0) / 2 ^ 53" by simp
  moreover have "\<bar>1::rat\<bar> \<le> 1 + of_nat 0" by simp
  moreover have "0 + length flags \<le> 2 ^ 32" using assms by simp
  ultimately have "\<bar>?t - ?T\<bar> \<le> (of_nat (0 + length flags) * of_nat (0 + length flags) + 2 * of_nat (0 + length flags)) / 2 ^ 53
     \<and> \<bar>?t\<bar> \<le> 1 + of_nat (0 + length flags)"
    by (rule fold_binary64_err)
  then have te: "\<bar>?t - ?T\<bar> \<le> (?k * ?k + 2 * ?k) / 2 ^ 53" and tb: "\<bar>?t\<bar> \<le> 1 + ?k" by simp_all
  have be: "\<bar>?b - ?B\<bar> \<le> 1 / 2 ^ 53" by (rule lengthBonus_err)
  have b0: "0 \<le> ?b" by (rule lengthBonus_nonneg)
  have b1: "?b \<le> 1 / 2" by (rule lengthBonus_le)
  have s: "\<bar>?t + ?b\<bar> \<le> ?k + 3 / 2" using tb b0 b1 by linarith
  have "\<bar>binary64 (?t + ?b) - (?t + ?b)\<bar> \<le> \<bar>?t + ?b\<bar> / 2 ^ 53" by (rule binary64_rel_err)
  also have "\<dots> \<le> (?k + 3 / 2) / 2 ^ 53" using s by (simp add: divide_right_mono)
  finally have re: "\<bar>binary64 (?t + ?b) - (?t + ?b)\<bar> \<le> (?k + 3 / 2) / 2 ^ 53" .
  have "\<bar>binary64 (?t + ?b) - (?T + ?B)\<bar> \<le> \<bar>binary64 (?t + ?b) - (?t + ?b)\<bar> + \<bar>?t - ?T\<bar> + \<bar>?b - ?B\<bar>"
    by linarith
  also have "\<dots> \<le> (?k + 3 / 2) / 2 ^ 53 + (?k * ?k + 2 * ?k) / 2 ^ 53 + 1 / 2 ^ 53"
    using re te be by linarith
  also have "\<dots> = (?k * ?k + 3 * ?k + 5 / 2) / 2 ^ 53" by (simp add: field_simps)
  also have "\<dots> \<le> (?k + 2) ^ 2 / 2 ^ 53"
    using k0 by (intro divide_right_mono) (simp_all add: power2_eq_square algebra_simps)
  finally have tot: "\<bar>binary64 (?t + ?b) - (?T + ?B)\<bar> \<le> (?k + 2) ^ 2 / 2 ^ 53" .
  have sb: "calculateComplianceScore binary64 flags n = max 0 (min 1 (binary64 (?t + ?b)))"
    using False by (simp add: calculateComplianceScore_def Let_def)
  have se: "calculateComplianceScore exact flags n = max 0 (min 1 (?T + ?B))"
    using False by (simp add: calculateComplianceScore_def Let_def exact_def)
  have "\<bar>max 0 (min 1 (binary64 (?t + ?b))) - max 0 (min 1 (?T + ?B))\<bar> \<le> \<bar>binary64 (?t + ?b) - (?T + ?B)\<bar>"
    by (rule clamp_lipschitz)
  with tot show ?thesis unfolding sb se by linarith
qed

lemma score_high_medium_binary64:
  "calculateComplianceScore binary64 [high_flag, medium_flag] 5 = 2499497793190625 / 4503599627370496"
proof -
  have b: "min (binary64 (1 / 10)) (binary64 (of_nat 5 / 1000)) = (5764607523034235 / 1152921504606846976 :: rat)"
  proof -
    have "(of_nat 5 / 1000 :: rat) = 1 / 200" by simp
    then show ?thesis by (simp add: binary64_01 binary64_0005)
  qed
  have "calculateComplianceScore binary64 [high_flag, medium_flag] 5 =
      max 0 (min 1 (binary64 (binary64 (binary64 (1 - binary64 (3 / 10)) - binary64 (15 / 100))
         + min (binary64 (1 / 10)) (binary64 (of_nat 5 / 1000)))))"
    by (simp add: calculateComplianceScore_def weight_def high_flag_def medium_flag_def)
  also have "\<dots> = max 0 (min 1 (2499497793190625 / 4503599627370496))"
    by (simp only: b binary64_03 binary64_015 binary64_sub_high binary64_sub_medium binary64_add_0005)
  also have "\<dots> = 2499497793190625 / 4503599627370496" by simp
  finally show ?thesis .
qed

lemma formula_high_medium:
  "max 0 (min 1 (1 - 3 / 10 * of_nat (count_severity High [high_flag, medium_flag])
                     - 15 / 100 * of_nat (count_severity Medium [high_flag, medium_flag])
                     - 5 / 100 * of_nat (count_severity Low [high_flag, medium_flag])
                     + min (1 / 10) (of_nat 5 / 1000))) = (111 / 200 :: rat)"
  by (simp add: count_severity_def high_flag_def medium_flag_def)

lemma score_one_high_binary64:
  assumes "severity f = High"
  shows "calculateComplianceScore binary64 [f] 1000 = 7205759403792793 / 9007199254740992"
proof -
  have "calculateComplianceScore binary64 [f] 1000 =
      max 0 (min 1 (binary64 (binary64 (1 - binary64 (3 / 10))
         + min (binary64 (1 / 10)) (binary64 (of_nat 1000 / 1000)))))"
    using assms by (simp add: calculateComplianceScore_def weight_def)
  also have "\<dots> = max 0 (min 1 (7205759403792793 / 9007199254740992))"
    by (simp only: binary64_one_high)
  also have "\<dots> = 7205759403792793 / 9007199254740992" by simp
  finally show ?thesis .
qed


section \<open>Properties of the rule engine\<close>

lemma occurs_at_Cons_0: "occurs_at (c # cs) p 0 \<longleftrightarrow> take (length p) (c # cs) = p"
  by (simp add: occurs_at_def)

lemma occurs_at_Cons_Suc: "occurs_at (c # cs) p (Suc j) \<longleftrightarrow> occurs_at cs p j"
  by (simp add: occurs_at_def)

lemma occurs_at_Nil: "occurs_at [] p j \<longleftrightarrow> j = 0 \<and> p = []"
  by (auto simp: occurs_at_def)

lemma indexOfFrom_Some:
  "indexOfFrom s p i = Some k \<Longrightarrow>
     i \<le> k \<and> occurs_at s p (k - i) \<and> (\<forall>j < k - i. \<not> occurs_at s p j)"
proof (induction s p i arbitrary: k rule: indexOfFrom.induct)
  case (1 p i)
  then show ?case by (simp add: occurs_at_Nil split: if_splits)
next
  case (2 c cs p i)
  show ?case
  proof (cases "take (length p) (c # cs) = p")
    case True
    with "2.prems" have "k = i" by simp
    with True show ?thesis by (simp add: occurs_at_Cons_0)
  next
    case False
    with "2.prems" have r: "indexOfFrom cs p (Suc i) = Some k" by simp
    from "2.IH"[OF False r] have ih: "Suc i \<le> k" "occurs_at cs p (k - Suc i)"
      "\<forall>j < k - Suc i. \<not> occurs_at cs p j" by simp_all
    have k: "k - i = Suc (k - Suc i)" using ih(1) by simp
    have "\<not> occurs_at (c # cs) p j" if "j < k - i" for j
    proof (cases j)
      case 0
      then show ?thesis using False by (simp add: occurs_at_Cons_0)
    next
      case (Suc j')
      then have "j' < k - Suc i" using that k by simp
      then show ?thesis using ih(3) Suc by (simp add: occurs_at_Cons_Suc)
    qed
    then show ?thesis using ih k by (simp add: occurs_at_Cons_Suc)
  qed
qed

lemma indexOfFrom_None:
  "indexOfFrom s p i = None \<Longrightarrow> \<not> occurs_at s p j"
proof (induction s p i arbitrary: j rule: indexOfFrom.induct)
  case (1 p i)
  then show ?case by (simp add: occurs_at_Nil split: if_splits)
next
  case (2 c cs p i)
  then have f: "take (length p) (c # cs) \<noteq> p" and r: "indexOfFrom cs p (Suc i) = None"
    by (simp_all split: if_splits)
  show ?case
  proof (cases j)
    case 0
    then show ?thesis using f by (simp add: occurs_at_Cons_0)
  next
    case (Suc j')
    then show ?thesis using "2.IH"[OF f r, of j'] by (simp add: occurs_at_Cons_Suc)
  qed
qed

lemma string_includes_iff: "string_includes s p \<longleftrightarrow> (\<exists>j. occurs_at s p j)"
proof
  assume "string_includes s p"
  then obtain k where "indexOfFrom s p 0 = Some k" by (auto simp: string_includes_def)
  from indexOfFrom_Some[OF this] show "\<exists>j. occurs_at s p j" by auto
next
  assume "\<exists>j. occurs_at s p j"
  then show "string_includes s p"
    using indexOfFrom_None[of s p 0] by (auto simp: string_includes_def)
qed


lemma fold_push:
  "fold (\<lambda>x acc. if P x then acc @ [F x] else acc) xs acc = acc @ map F (filter P xs)"
  by (induction xs arbitrary: acc) simp_all


lemma first_some_upt:
  "first_some (map f [a ..< b]) = Some y \<Longrightarrow>
     \<exists>i. a \<le> i \<and> i < b \<and> f i = Some y \<and> (\<forall>j. a \<le> j \<and> j < i \<longrightarrow> f j = None)"
proof (induction "b - a" arbitrary: a)
  case 0
  then show ?case by simp
next
  case (Suc n)
  then have ab: "a < b" by simp
  then have u: "[a ..< b] = a # [Suc a ..< b]" by (rule upt_conv_Cons)
  show ?case
  proof (cases "f a")
    case None
    with Suc.prems u have r: "first_some (map f [Suc a ..< b]) = Some y" by simp
    have "n = b - Suc a" using Suc.hyps(2) by simp
    from Suc.hyps(1)[OF this r] obtain i where i: "Suc a \<le> i" "i < b" "f i = Some y"
      "\<forall>j. Suc a \<le> j \<and> j < i \<longrightarrow> f j = None" by blast
    have "f j = None" if "a \<le> j \<and> j < i" for j
    proof (cases "j = a")
      case True
      then show ?thesis using None by simp
    next
      case False
      then show ?thesis using that i(4) by simp
    qed
    with i show ?thesis by (intro exI[of _ i]) simp
  next
    case (Some z)
    with Suc.prems u have "z = y" by simp
    with Some ab show ?thesis by (intro exI[of _ a]) auto
  qed
qed

lemma match_at_start: "match_at re s i = Some (a, e) \<Longrightarrow> a = i"
  by (auto simp: match_at_def split: if_splits)

lemma match_at_beyond: "length s < i \<Longrightarrow> match_at re s i = None"
  by (simp add: match_at_def wordBoundary_def wordCharAt_def)


lemma regex_exec_Some:
  assumes "regex_exec re s k = Some (i, e)"
  shows "k \<le> i \<and> match_at re s i = Some (i, e) \<and> (\<forall>j. k \<le> j \<and> j < i \<longrightarrow> match_at re s j = None)"
proof -
  from assms have "first_some (map (match_at re s) [k ..< Suc (length s)]) = Some (i, e)"
    by (simp only: regex_exec_def)
  from first_some_upt[OF this] obtain i' where i': "k \<le> i'" "match_at re s i' = Some (i, e)"
    "\<forall>j. k \<le> j \<and> j < i' \<longrightarrow> match_at re s j = None" by blast
  from match_at_start[OF i'(2)] have "i = i'" .
  with i' show ?thesis by simp
qed

lemma productive_match:
  assumes "productive re" "match_at re s i = Some (i, e)"
  shows "i < e"
proof -
  from assms(2) have b: "i \<le> length s"
    using match_at_beyond[of s i re] by (cases "i \<le> length s") simp_all
  from assms(2) have "first_some (map (\<lambda>alt. match_atoms alt s i) re) = Some e"
    by (auto simp: match_at_def split: if_splits)
  then have "Some e \<in> set (map (\<lambda>alt. match_atoms alt s i) re)" by (rule first_some_in)
  then obtain alt where alt: "alt \<in> set re" "match_atoms alt s i = Some e" by auto
  from assms(1) alt(1) have "productive_alt alt" by (simp add: productive_def list_all_iff)
  then obtain l rest where a: "alt = Lit l # rest" "l \<noteq> []"
    by (cases alt rule: productive_alt.cases) simp_all
  from alt(2) a have c: "i + length l \<le> length s" and m: "match_atoms rest s (i + length l) = Some e"
    by (simp_all split: if_splits)
  from match_atoms_bounds[OF m c] a(2) show ?thesis by (cases l) simp_all
qed

lemma findMatchesFrom_total:
  assumes "productive re"
  shows "\<exists>ms. findMatchesFrom re s k = Some ms"
  using assms
proof (induction re s k rule: findMatchesFrom.induct)
  case (1 re s lastIndex)
  show ?case
  proof (cases "regex_exec re s lastIndex")
    case None
    then show ?thesis by (subst findMatchesFrom.simps) simp
  next
    case (Some x)
    obtain i e where x: "x = (i, e)" by (cases x)
    from regex_exec_Some[OF Some[unfolded x]] have li: "lastIndex \<le> i"
      and m: "match_at re s i = Some (i, e)"
      by simp_all
    have "i < e" by (rule productive_match[OF "1.prems" m])
    with li have lt: "\<not> e \<le> lastIndex" by linarith
    from "1.IH"[OF Some x[symmetric] lt "1.prems"] obtain ms where "findMatchesFrom re s e = Some ms" by blast
    then show ?thesis using Some x lt by (subst findMatchesFrom.simps) simp
  qed
qed



lemma tosRules_productive: "list_all (\<lambda>rule. productive (pattern rule)) tosRules"
  by (simp add: tosRules_def productive_def)




lemma checkBrandRules_eq:
  \<open>checkBrandRules toLowerCase script br =
     map (\<lambda>keyword. \<lparr>ftype = Brand_rule, severity = High,
            message = ''Forbidden keyword: "'' @ keyword @ ''"'',
            suggestion = Some ''Remove this term as it violates brand guidelines'',
            position = Some \<lparr>start = indexOf (toLowerCase script) (toLowerCase keyword),
                              end' = indexOf (toLowerCase script) (toLowerCase keyword) + int (length keyword)\<rparr>\<rparr>)
       (filter (\<lambda>keyword. string_includes (toLowerCase script) (toLowerCase keyword))
          (forbidden_keywords br))
     @ (if required_keywords br \<noteq> []
           \<and> \<not> list_ex (\<lambda>keyword. string_includes (toLowerCase script) (toLowerCase keyword))
                 (required_keywords br)
        then [\<lparr>ftype = Brand_rule, severity = Low,
                message = ''Consider including required brand keywords'',
                suggestion = Some (''Try to include: '' @ join '', '' (required_keywords br)),
                position = None\<rparr>]
        else [])\<close>
  unfolding checkBrandRules_def Let_def fold_push by simp

lemma occurs_at_append_left: "occurs_at (x @ ys) x 0"
  by (simp add: occurs_at_def)

lemma occurs_at_append_right: "occurs_at ys k j \<Longrightarrow> occurs_at (xs @ ys) k (length xs + j)"
  by (simp add: occurs_at_def)

lemma occurs_at_self: "occurs_at x x 0"
  by (simp add: occurs_at_def)

lemma join_lists_all: "k \<in> set xs \<Longrightarrow> \<exists>j. occurs_at (join sep xs) k j"
proof (induction sep xs rule: join.induct)
  case (1 sep)
  then show ?case by simp
next
  case (2 sep x)
  then show ?case using occurs_at_self by auto
next
  case (3 sep x y ys)
  show ?case
  proof (cases "k = x")
    case True
    then show ?thesis using occurs_at_append_left[of x "sep @ join sep (y # ys)"] by auto
  next
    case False
    with "3.prems" have "k \<in> set (y # ys)" by simp
    from "3.IH"[OF this] obtain j where "occurs_at (join sep (y # ys)) k j" by blast
    from occurs_at_append_right[OF this, of "x @ sep"] show ?thesis by auto
  qed
qed

lemma ruleFlags_positions:
  "ruleFlags rule script = Some fs \<Longrightarrow> filter (\<lambda>f. position f = None) fs = []"
  by (auto simp: ruleFlags_def filter_empty_conv)

lemma findRuleMatches_total:
  "rule \<in> set tosRules \<Longrightarrow> \<exists>ms. findRuleMatches script rule = Some ms"
  unfolding findRuleMatches_def
  using tosRules_productive by (intro findMatchesFrom_total) (simp add: list_all_iff)

lemma those_map_total:
  "(\<And>x. x \<in> set xs \<Longrightarrow> \<exists>y. f x = Some y \<and> P y) \<Longrightarrow> \<exists>ys. those (map f xs) = Some ys \<and> list_all P ys"
proof (induction xs)
  case Nil
  show ?case by simp
next
  case (Cons x xs)
  from Cons.prems[of x] obtain y where y: "f x = Some y" "P y" by auto
  from Cons.IH Cons.prems obtain ys where "those (map f xs) = Some ys" "list_all P ys" by auto
  with y show ?case by simp
qed

lemma tos_flags_total:
  "\<exists>fss. those (map (\<lambda>rule. ruleFlags rule script) tosRules) = Some fss
         \<and> list_all (\<lambda>fs. filter (\<lambda>f. position f = None) fs = []) fss"
proof (rule those_map_total)
  fix rule assume "rule \<in> set tosRules"
  from findRuleMatches_total[OF this, of script] obtain ms where "findRuleMatches script rule = Some ms" ..
  then have "ruleFlags rule script = Some (map (\<lambda>match. \<lparr>ftype = rule_type rule, severity = rule_severity rule,
         message = rule_message rule, suggestion = rule_suggestion rule, position = Some match\<rparr>) ms)"
    by (simp add: ruleFlags_def)
  then show "\<exists>y. ruleFlags rule script = Some y \<and> filter (\<lambda>f. position f = None) y = []"
    using ruleFlags_positions by blast
qed

lemma filter_concat_empty:
  "list_all (\<lambda>fs. filter P fs = []) fss \<Longrightarrow> filter P (concat fss) = []"
  by (induction fss) simp_all







section \<open>Properties of the AI angle generator\<close>


lemma match_negative_potential:
  "match_delimited (CHR ''{'') (CHR ''}'') negative_potential_text = Some negative_potential_text"
  by (simp add: match_delimited_def negative_potential_text_def)


lemma match_toString_score:
  "match_delimited (CHR ''{'') (CHR ''}'') toString_score_text = Some toString_score_text"
  by (simp add: match_delimited_def toString_score_text_def)

lemma texts_distinct:
  "negative_potential_text \<noteq> empty_object_text" "four_hooks_text \<noteq> empty_object_text"
  "four_hooks_text \<noteq> negative_potential_text" "toString_score_text \<noteq> empty_object_text"
  "toString_score_text \<noteq> negative_potential_text" "toString_score_text \<noteq> four_hooks_text"
  by (simp_all add: negative_potential_text_def empty_object_text_def four_hooks_text_def
      toString_score_text_def)


lemma parse_negative_potential:
  "parseViralityAnalysis example_platform negative_potential_text =
     \<lparr>overall_sentiment_score = 0, overall_virality_potential = - 7 / 10, key_insights = [],
      virality_packs = [], recommendations = []\<rparr>"
  by (simp add: parseViralityAnalysis_def parseViralityAnalysis_try_def match_negative_potential
      example_platform_def texts_distinct)

lemma validate_four_hooks:
  "validateViralityPack example_platform This_service four_hooks_pack =
     Inr \<lparr>angle_name = ''Untitled Angle'', core_angle = ''Focus on product benefits'',
          hook_options = [''a'', ''b'', ''c'', ''d''],
          full_script = ''This product is amazing! You should try it. Link in bio!'',
          visual_pacing_notes = ''Show product, speak to camera, call to action'',
          audio_suggestion = ''Upbeat trending audio'',
          sentiment_score = 0, virality_score = - 1 / 2\<rparr>"
  by (simp add: validateViralityPack_def four_hooks_pack_def)

lemma js_Number_raises:
  "js_Number pf v = Inl e \<longleftrightarrow> e = TypeError \<and> (\<exists>x. v = Some x \<and> unconvertible x)"
  by (cases "(pf, v)" rule: js_Number.cases) auto

lemma ensureNumber_raises:
  "ensureNumber pf v d lo hi = Inl e \<longleftrightarrow> e = TypeError \<and> (\<exists>x. v = Some x \<and> unconvertible x)"
proof (cases "js_Number pf v")
  case (Inl a)
  then show ?thesis using js_Number_raises[of pf v a] by auto
next
  case (Inr n)
  then have "\<not> (\<exists>x. v = Some x \<and> unconvertible x)"
    using js_Number_raises[of pf v TypeError] by auto
  with Inr show ?thesis by (cases n) simp_all
qed

lemma ensureNumber_bounds:
  assumes "lo \<le> hi" "lo \<le> d" "d \<le> hi" "ensureNumber pf v d lo hi = Inr x"
  shows "lo \<le> x \<and> x \<le> hi"
proof (cases "js_Number pf v")
  case (Inl a)
  with assms(4) show ?thesis by simp
next
  case (Inr n)
  with assms show ?thesis by (cases n) auto
qed








lemma parse_toString_score:
  "parseViralityAnalysis example_platform toString_score_text = getFallbackAnalysis"
  by (simp add: parseViralityAnalysis_def parseViralityAnalysis_try_def match_toString_score
      example_platform_def texts_distinct)











section \<open>Properties of the insight aggregation\<close>

lemma themes_review1: "extractThemes (toLowerCase_ASCII ''amazing taste and great energy'') = [''taste_quality'']"
  by code_simp

lemma themes_review2:
  "extractThemes (toLowerCase_ASCII ''terrible taste, waste of money'') = [''taste_quality'', ''price_value'']"
  by code_simp

lemma themes_review3: "extractThemes (toLowerCase_ASCII ''bad taste'') = [''taste_quality'']"
  by code_simp

lemma binary64_2: "binary64 2 = 2" by code_simp
lemma binary64_m2: "binary64 (- 2) = - 2" by code_simp
lemma binary64_m1: "binary64 (- 1) = - 1" by code_simp
lemma binary64_mhalf: "binary64 (- (1 / 2)) = - (1 / 2)" by code_simp
lemma binary64_m3_2: "binary64 (- (3 / 2)) = - (3 / 2)" by code_simp
lemma binary64_m3_4: "binary64 (- (3 / 4)) = - (3 / 4)" by code_simp

lemma sentiments_exact:
  "calculateSentiment exact 5 = 1" "calculateSentiment exact 1 = - 1"
  "calculateSentiment exact 2 = - (1 / 2)"
  by (simp_all add: calculateSentiment_def exact_def)

lemma sentiments_binary64:
  "calculateSentiment binary64 5 = 1" "calculateSentiment binary64 1 = - 1"
  "calculateSentiment binary64 2 = - (1 / 2)"
  by (simp_all add: calculateSentiment_def binary64_2 binary64_1 binary64_m2 binary64_m1 binary64_mhalf)

lemma process_taste_reviews_exact:
  "processReviews exact toLowerCase_ASCII tq taste_reviews =
     \<lparr>pain_points =
        [\<lparr>theme = ''taste_quality'', insight_sentiment = - (3 / 4), insight_mentions = 2,
          example_quotes = [tq ''terrible taste, waste of money'' None, tq ''bad taste'' None]\<rparr>,
         \<lparr>theme = ''price_value'', insight_sentiment = - 1, insight_mentions = 1,
          example_quotes = [tq ''terrible taste, waste of money'' None]\<rparr>],
      delight_factors =
        [\<lparr>theme = ''taste_quality'', insight_sentiment = 1, insight_mentions = 1,
          example_quotes = [tq ''amazing taste and great energy'' None]\<rparr>]\<rparr>"
  by (simp add: processReviews_def taste_reviews_def themes_review1 themes_review2 themes_review3
      sentiments_exact route_def finish_def Let_def exact_def)

lemma process_taste_reviews_binary64:
  "processReviews binary64 toLowerCase_ASCII tq taste_reviews =
     \<lparr>pain_points =
        [\<lparr>theme = ''taste_quality'', insight_sentiment = - (3 / 4), insight_mentions = 2,
          example_quotes = [tq ''terrible taste, waste of money'' None, tq ''bad taste'' None]\<rparr>,
         \<lparr>theme = ''price_value'', insight_sentiment = - 1, insight_mentions = 1,
          example_quotes = [tq ''terrible taste, waste of money'' None]\<rparr>],
      delight_factors =
        [\<lparr>theme = ''taste_quality'', insight_sentiment = 1, insight_mentions = 1,
          example_quotes = [tq ''amazing taste and great energy'' None]\<rparr>]\<rparr>"
  by (simp add: processReviews_def taste_reviews_def themes_review1 themes_review2 themes_review3
      sentiments_binary64 route_def finish_def Let_def binary64_03 binary64_1 binary64_m1 binary64_m3_2
      binary64_m3_4)


text \<open>
  The contents of the three reviews are in lower case: a lower-casing function that
  leaves them as they are gives the result of the ASCII one.
\<close>

lemma taste_reviews_lower_case:
  "map toLowerCase_ASCII (map content taste_reviews) = map content taste_reviews"
  by code_simp

lemma process_taste_reviews_lower:
  assumes "map toLowerCase (map content taste_reviews) = map content taste_reviews"
  shows "processReviews rnd toLowerCase tq taste_reviews
         = processReviews rnd toLowerCase_ASCII tq taste_reviews"
proof -
  from assms have a: "toLowerCase ''amazing taste and great energy'' = ''amazing taste and great energy''"
    "toLowerCase ''terrible taste, waste of money'' = ''terrible taste, waste of money''"
    "toLowerCase ''bad taste'' = ''bad taste''"
    by (simp_all add: taste_reviews_def)
  from taste_reviews_lower_case
  have b: "toLowerCase_ASCII ''amazing taste and great energy'' = ''amazing taste and great energy''"
    "toLowerCase_ASCII ''terrible taste, waste of money'' = ''terrible taste, waste of money''"
    "toLowerCase_ASCII ''bad taste'' = ''bad taste''"
    by (simp_all add: taste_reviews_def)
  show ?thesis by (simp add: processReviews_def taste_reviews_def a b)
qed


section \<open>The claims\<close>

text \<open>
  C1 (as stated).  The claim equates the score with the clamp to \<open>[0, 1]\<close> of
  \<open>1 - 0.30 * #high - 0.15 * #medium - 0.05 * #low + min(0.10, n / 1000)\<close>.  One
  high-severity and one medium-severity flag with content length 5 give the formula the
  value \<open>0.555\<close>; JavaScript computes \<open>1 - 0.3 - 0.15 + 0.005 = 0.5549999999999999\<close>,
  which is below the double \<open>0.555\<close> and below the rational \<open>111 / 200\<close>.
\<close>

theorem score_differs_from_formula:
  "calculateComplianceScore binary64 [high_flag, medium_flag] 5 = 2499497793190625 / 4503599627370496
   \<and> max 0 (min 1 (1 - 3 / 10 * of_nat (count_severity High [high_flag, medium_flag])
                     - 15 / 100 * of_nat (count_severity Medium [high_flag, medium_flag])
                     - 5 / 100 * of_nat (count_severity Low [high_flag, medium_flag])
                     + min (1 / 10) (of_nat 5 / 1000))) = (111 / 200 :: rat)
   \<and> binary64 (111 / 200) = 4998995586381251 / 9007199254740992
   \<and> calculateComplianceScore binary64 [high_flag, medium_flag] 5 < binary64 (111 / 200)
   \<and> calculateComplianceScore binary64 [high_flag, medium_flag] 5 < 111 / 200"
proof -
  have c1: "(2499497793190625 / 4503599627370496 :: rat) < 4998995586381251 / 9007199254740992" by simp
  have c2: "(2499497793190625 / 4503599627370496 :: rat) < 111 / 200" by simp
  show ?thesis using c1 c2
    by (simp only: score_high_medium_binary64 formula_high_medium binary64_0555 simp_thms)
qed

text \<open>
  C1 (amended).  For every list of flags and every content length \<open>n\<close>,
  \<open>calculateComplianceScore\<close> returns the clamp to \<open>[0, 1]\<close> of the formula in exact
  arithmetic.  As binary64 computes it (the code subtracts the weights one by one and
  each step is rounded), the score of \<open>k\<close> flags lies within \<open>(k + 2)\<^sup>2 / 2\<^sup>5\<^sup>3\<close> of
  the clamp of the formula, for every \<open>k\<close> up to \<open>2\<^sup>3\<^sup>2\<close>, which no JavaScript array
  exceeds.  The result is in \<open>[0, 1]\<close> under every rounding and for every number of
  high-severity flags, and the early return of \<open>1.0\<close> for the empty list agrees with the
  formula.
\<close>

theorem calculateComplianceScore_formula:
  "calculateComplianceScore exact flags n =
     max 0 (min 1 (1 - 3 / 10 * of_nat (count_severity High flags)
                     - 15 / 100 * of_nat (count_severity Medium flags)
                     - 5 / 100 * of_nat (count_severity Low flags)
                     + min (1 / 10) (of_nat n / 1000)))
   \<and> (length flags \<le> 2 ^ 32 \<longrightarrow>
        \<bar>calculateComplianceScore binary64 flags n
          - max 0 (min 1 (1 - 3 / 10 * of_nat (count_severity High flags)
                     - 15 / 100 * of_nat (count_severity Medium flags)
                     - 5 / 100 * of_nat (count_severity Low flags)
                     + min (1 / 10) (of_nat n / 1000)))\<bar>
        \<le> (of_nat (length flags) + 2) ^ 2 / 2 ^ 53)
   \<and> 0 \<le> calculateComplianceScore rnd flags n
   \<and> calculateComplianceScore rnd flags n \<le> 1
   \<and> calculateComplianceScore rnd [] n = 1
   \<and> max 0 (min 1 (1 - 3 / 10 * of_nat (count_severity High [])
                     - 15 / 100 * of_nat (count_severity Medium [])
                     - 5 / 100 * of_nat (count_severity Low [])
                     + min (1 / 10) (of_nat n / 1000))) = (1 :: rat)"
proof -
  have emp: "calculateComplianceScore rnd [] n = 1"
    by (simp add: calculateComplianceScore_def)
  have "(0::rat) \<le> min (1 / 10) (of_nat n / 1000)" by simp
  then have f0: "max 0 (min 1 (1 - 3 / 10 * of_nat (count_severity High [])
                     - 15 / 100 * of_nat (count_severity Medium [])
                     - 5 / 100 * of_nat (count_severity Low [])
                     + min (1 / 10) (of_nat n / 1000))) = (1 :: rat)"
    by (simp add: count_severity_Nil)
  have err: "length flags \<le> 2 ^ 32 \<longrightarrow>
        \<bar>calculateComplianceScore binary64 flags n
          - max 0 (min 1 (1 - 3 / 10 * of_nat (count_severity High flags)
                     - 15 / 100 * of_nat (count_severity Medium flags)
                     - 5 / 100 * of_nat (count_severity Low flags)
                     + min (1 / 10) (of_nat n / 1000)))\<bar>
        \<le> (of_nat (length flags) + 2) ^ 2 / 2 ^ 53"
    using score_binary64_err[of flags n] by (simp only: score_exact_closed_form[symmetric]) blast
  from score_exact_closed_form[of flags n] score_in_unit_interval[of rnd flags n] emp f0 err
  show ?thesis by blast
qed

theorem calculateComplianceScore_formula_witness:
  "length [high_flag, medium_flag] \<le> 2 ^ 32
   \<and> calculateComplianceScore exact [high_flag, medium_flag] 5 = 111 / 200
   \<and> calculateComplianceScore binary64 [high_flag, medium_flag] 5 = 2499497793190625 / 4503599627370496
   \<and> \<bar>calculateComplianceScore binary64 [high_flag, medium_flag] 5 - 111 / 200\<bar> \<le> 16 / 2 ^ 53"
proof -
  have l: "length [high_flag, medium_flag] \<le> 2 ^ 32" by simp
  from calculateComplianceScore_formula[of "[high_flag, medium_flag]" 5] l
  have e: "calculateComplianceScore exact [high_flag, medium_flag] 5 = 111 / 200"
    and b: "\<bar>calculateComplianceScore binary64 [high_flag, medium_flag] 5 - 111 / 200\<bar>
        \<le> (of_nat (length [high_flag, medium_flag]) + 2) ^ 2 / 2 ^ 53"
    by (simp_all only: formula_high_medium)
  from b have "\<bar>calculateComplianceScore binary64 [high_flag, medium_flag] 5 - 111 / 200\<bar> \<le> 16 / 2 ^ 53"
    by simp
  with l e score_high_medium_binary64 show ?thesis by blast
qed

text \<open>
  C2 (as stated).  The claim gives one high-severity flag with content length 1000 the
  score \<open>0.8\<close>.  JavaScript computes \<open>1 - 0.3 + 0.1 = 0.7999999999999999\<close>, which
  is below the double \<open>0.8\<close> and below the rational \<open>4 / 5\<close>; the level is
  \<open>high\<close>.
\<close>

theorem one_high_flag_score_below_08:
  "determineRiskLevel [high_flag] = High
   \<and> calculateComplianceScore binary64 [high_flag] 1000 = 7205759403792793 / 9007199254740992
   \<and> binary64 (4 / 5) = 3602879701896397 / 4503599627370496
   \<and> calculateComplianceScore binary64 [high_flag] 1000 < binary64 (4 / 5)
   \<and> calculateComplianceScore binary64 [high_flag] 1000 < 4 / 5"
proof -
  have h: "severity high_flag = High" by (simp add: high_flag_def)
  have r: "determineRiskLevel [high_flag] = High" by (simp add: determineRiskLevel_def h)
  have c1: "(7205759403792793 / 9007199254740992 :: rat) < 3602879701896397 / 4503599627370496" by simp
  have c2: "(7205759403792793 / 9007199254740992 :: rat) < 4 / 5" by simp
  show ?thesis using r c1 c2 by (simp only: score_one_high_binary64[OF h] binary64_08 simp_thms)
qed

text \<open>
  C2 (amended).  \<open>determineRiskLevel\<close> returns \<open>high\<close> exactly when the list holds a
  high-severity flag or more than two medium-severity flags; otherwise \<open>medium\<close> exactly
  when it holds a medium-severity flag or more than three flags; otherwise \<open>low\<close>.
  The level does not follow the score: one high-severity flag and content length 1000
  give the level \<open>high\<close> with the score \<open>0.7999999999999999\<close>
  (\<open>7205759403792793 / 2\<^sup>5\<^sup>3\<close>, the double below \<open>0.8\<close>) as binary64 computes it, and
  \<open>0.8\<close> in exact arithmetic, far from the minimum \<open>0\<close>.
\<close>

theorem determineRiskLevel_classifier:
  "(determineRiskLevel flags = High \<longleftrightarrow>
      0 < count_severity High flags \<or> 2 < count_severity Medium flags)
   \<and> (determineRiskLevel flags = Medium \<longleftrightarrow>
        count_severity High flags = 0 \<and> count_severity Medium flags \<le> 2
        \<and> (0 < count_severity Medium flags \<or> 3 < length flags))
   \<and> (determineRiskLevel flags = Low \<longleftrightarrow>
        count_severity High flags = 0 \<and> count_severity Medium flags = 0 \<and> length flags \<le> 3)
   \<and> determineRiskLevel [f\<lparr>severity := High\<rparr>] = High
   \<and> calculateComplianceScore exact [f\<lparr>severity := High\<rparr>] 1000 = 4 / 5
   \<and> calculateComplianceScore binary64 [f\<lparr>severity := High\<rparr>] 1000
       = 7205759403792793 / 9007199254740992
   \<and> 0 < calculateComplianceScore binary64 [f\<lparr>severity := High\<rparr>] 1000"
proof -
  have cls: "(determineRiskLevel flags = High \<longleftrightarrow>
      0 < count_severity High flags \<or> 2 < count_severity Medium flags)
   \<and> (determineRiskLevel flags = Medium \<longleftrightarrow>
        count_severity High flags = 0 \<and> count_severity Medium flags \<le> 2
        \<and> (0 < count_severity Medium flags \<or> 3 < length flags))
   \<and> (determineRiskLevel flags = Low \<longleftrightarrow>
        count_severity High flags = 0 \<and> count_severity Medium flags = 0 \<and> length flags \<le> 3)"
    by (auto simp: determineRiskLevel_def count_severity_def Let_def)
  have hi: "determineRiskLevel [f\<lparr>severity := High\<rparr>] = High"
    by (simp add: determineRiskLevel_def)
  have ex: "calculateComplianceScore exact [f\<lparr>severity := High\<rparr>] 1000 = 4 / 5"
    by (simp add: calculateComplianceScore_def weight_def exact_def)
  have b: "calculateComplianceScore binary64 [f\<lparr>severity := High\<rparr>] 1000
       = 7205759403792793 / 9007199254740992"
    by (rule score_one_high_binary64) simp
  then have p: "0 < calculateComplianceScore binary64 [f\<lparr>severity := High\<rparr>] 1000" by simp
  from cls hi ex b p show ?thesis by blast
qed

text \<open>
  C9 (as stated).  The claim says that a \<open>low\<close> risk level implies a score of at least
  \<open>0.85\<close>.  Three low-severity flags and content length 0 have the level \<open>low\<close>, and
  JavaScript computes \<open>1 - 0.05 - 0.05 - 0.05 = 0.8499999999999999\<close>, which is below the
  double \<open>0.85\<close> (and below the rational \<open>17 / 20\<close>).
\<close>

theorem low_risk_score_below_085:
  "determineRiskLevel [low_flag, low_flag, low_flag] = Low
  \<and> calculateComplianceScore binary64 [low_flag, low_flag, low_flag] 0 = 3828059683264921 / 4503599627370496
  \<and> calculateComplianceScore binary64 [low_flag, low_flag, low_flag] 0 < binary64 (17 / 20)
  \<and> calculateComplianceScore binary64 [low_flag, low_flag, low_flag] 0 < 17 / 20"
proof -
  have r: "determineRiskLevel [low_flag, low_flag, low_flag] = Low"
    by (simp add: determineRiskLevel_def low_flag_def)
  have l: "\<forall>f\<in>set [low_flag, low_flag, low_flag]. severity f = Low"
    by (simp add: low_flag_def)
  have len: "length [low_flag, low_flag, low_flag] = 3" by simp
  have "calculateComplianceScore binary64 [low_flag, low_flag, low_flag] 0 =
     max 0 (min 1 (binary64 (3828059683264921 / 4503599627370496
        + min (binary64 (1 / 10)) (binary64 (of_nat 0 / 1000)))))"
    by (simp only: score_low[OF l] len funpow_3 b_chain3 list.distinct not_False_eq_True)
  also have "\<dots> = max 0 (min 1 (3828059683264921 / 4503599627370496))"
    by (simp only: b_t3_0)
  also have "\<dots> = 3828059683264921 / 4503599627370496" by simp
  finally have s: "calculateComplianceScore binary64 [low_flag, low_flag, low_flag] 0
      = 3828059683264921 / 4503599627370496" .
  have c1: "(3828059683264921 / 4503599627370496 :: rat) < 7656119366529843 / 9007199254740992" by simp
  have c2: "(3828059683264921 / 4503599627370496 :: rat) < 17 / 20" by simp
  show ?thesis using r c1 c2 by (simp only: s binary64_085 simp_thms)
qed

text \<open>
  C9 (amended).  If \<open>determineRiskLevel\<close> returns \<open>low\<close> then the score is at least
  \<open>0.85\<close> in exact arithmetic, and at least \<open>0.8499999999999999\<close>
  (\<open>3828059683264921 / 2 ^ 52\<close>, the double that \<open>1 - 0.05 - 0.05 - 0.05\<close> rounds to) as
  binary64 computes it, for every content length.
\<close>

theorem low_risk_score_bound:
  assumes "determineRiskLevel flags = Low"
  shows "17 / 20 \<le> calculateComplianceScore exact flags n
       \<and> 3828059683264921 / 4503599627370496 \<le> calculateComplianceScore binary64 flags n"
  using low_score_exact[OF assms] low_score_binary64[OF assms] by simp

theorem low_risk_score_bound_witness:
  "determineRiskLevel [low_flag, low_flag] = Low
   \<and> 17 / 20 \<le> calculateComplianceScore exact [low_flag, low_flag] 50
   \<and> 3828059683264921 / 4503599627370496 \<le> calculateComplianceScore binary64 [low_flag, low_flag] 50"
proof -
  have h: "determineRiskLevel [low_flag, low_flag] = Low"
    by (simp add: determineRiskLevel_def low_flag_def)
  show ?thesis using h low_risk_score_bound[OF h, of 50] by simp
qed



text \<open>
  C7.  For every lower-casing function of the runtime: when the required keywords are
  not empty and the lower-cased text of none of them occurs in the lower-cased script,
  the flags hold exactly one without a position: the
  low-severity advisory whose suggestion is \<open>Try to include:\<close> followed by all the
  required keywords, joined by commas.  When one occurs, or the list is empty, or no brand
  rules are given, no flag lacks a position: every other flag, of the brand rules and of
  the rule table, has one.
\<close>

theorem required_keyword_advisory:
  \<open>map_option (filter (\<lambda>f. position f = None)) (analyzeScript_flags toLowerCase script (Some br)) =
     Some (if required_keywords br \<noteq> []
              \<and> \<not> (\<exists>keyword\<in>set (required_keywords br).
                     \<exists>j. occurs_at (toLowerCase script) (toLowerCase keyword) j)
           then [\<lparr>ftype = Brand_rule, severity = Low,
                   message = ''Consider including required brand keywords'',
                   suggestion = Some (''Try to include: '' @ join '', '' (required_keywords br)),
                   position = None\<rparr>]
           else [])
   \<and> filter (\<lambda>f. position f = None) (checkBrandRules toLowerCase script br) =
       (if required_keywords br \<noteq> []
              \<and> \<not> (\<exists>keyword\<in>set (required_keywords br).
                     \<exists>j. occurs_at (toLowerCase script) (toLowerCase keyword) j)
           then [\<lparr>ftype = Brand_rule, severity = Low,
                   message = ''Consider including required brand keywords'',
                   suggestion = Some (''Try to include: '' @ join '', '' (required_keywords br)),
                   position = None\<rparr>]
           else [])
   \<and> map_option (filter (\<lambda>f. position f = None)) (analyzeScript_flags toLowerCase script None) = Some []
   \<and> (\<forall>keyword\<in>set (required_keywords br).
        \<exists>j. occurs_at (''Try to include: '' @ join '', '' (required_keywords br)) keyword j)\<close>
proof -
  let ?adv = "\<lparr>ftype = Brand_rule, severity = Low,
                   message = ''Consider including required brand keywords'',
                   suggestion = Some (''Try to include: '' @ join '', '' (required_keywords br)),
                   position = None\<rparr>"
  let ?cond = "required_keywords br \<noteq> []
              \<and> \<not> (\<exists>keyword\<in>set (required_keywords br).
                     \<exists>j. occurs_at (toLowerCase script) (toLowerCase keyword) j)"
  have ex: "list_ex (\<lambda>keyword. string_includes (toLowerCase script) (toLowerCase keyword))
                 (required_keywords br)
            \<longleftrightarrow> (\<exists>keyword\<in>set (required_keywords br).
                     \<exists>j. occurs_at (toLowerCase script) (toLowerCase keyword) j)"
    by (simp add: list_ex_iff string_includes_iff)
  have b: "filter (\<lambda>f. position f = None) (checkBrandRules toLowerCase script br) = (if ?cond then [?adv] else [])"
    by (simp add: checkBrandRules_eq ex filter_empty_conv)
  from tos_flags_total[of script] obtain fss
    where fss: "those (map (\<lambda>rule. ruleFlags rule script) tosRules) = Some fss"
      and np: "list_all (\<lambda>fs. filter (\<lambda>f. position f = None) fs = []) fss" by blast
  have cn: "filter (\<lambda>f. position f = None) (concat fss) = []"
    by (rule filter_concat_empty[OF np])
  have a: "map_option (filter (\<lambda>f. position f = None)) (analyzeScript_flags toLowerCase script (Some br))
      = Some (if ?cond then [?adv] else [])"
    by (simp only: analyzeScript_flags_def fss option.map option.case filter_append cn b append_Nil)
  have c: "map_option (filter (\<lambda>f. position f = None)) (analyzeScript_flags toLowerCase script None) = Some []"
    by (simp add: analyzeScript_flags_def fss cn)
  have d: "\<forall>keyword\<in>set (required_keywords br).
        \<exists>j. occurs_at (''Try to include: '' @ join '', '' (required_keywords br)) keyword j"
  proof
    fix keyword assume "keyword \<in> set (required_keywords br)"
    from join_lists_all[OF this, of "'', ''"] obtain j
      where "occurs_at (join '', '' (required_keywords br)) keyword j" ..
    from occurs_at_append_right[OF this, of "''Try to include: ''"]
    show "\<exists>j. occurs_at (''Try to include: '' @ join '', '' (required_keywords br)) keyword j" ..
  qed
  from a b c d show ?thesis by blast
qed

theorem required_keyword_advisory_witness:
  \<open>map_option (filter (\<lambda>f. position f = None)) (analyzeScript_flags toLowerCase_ASCII sale_script (Some sale_rules)) =
     Some [\<lparr>ftype = Brand_rule, severity = Low,
             message = ''Consider including required brand keywords'',
             suggestion = Some ''Try to include: vegan, organic'', position = None\<rparr>]
   \<and> (\<exists>j. occurs_at ''Try to include: vegan, organic'' ''vegan'' j)
   \<and> (\<exists>j. occurs_at ''Try to include: vegan, organic'' ''organic'' j)\<close>
proof -
  have r: "required_keywords sale_rules = [''vegan'', ''organic'']"
    by (simp add: sale_rules_def)
  have n: "\<not> (\<exists>keyword\<in>set (required_keywords sale_rules).
                     \<exists>j. occurs_at (toLowerCase_ASCII sale_script) (toLowerCase_ASCII keyword) j)"
  proof -
    have "\<not> string_includes (toLowerCase_ASCII sale_script) (toLowerCase_ASCII ''vegan'')"
      "\<not> string_includes (toLowerCase_ASCII sale_script) (toLowerCase_ASCII ''organic'')"
      by code_simp+
    then show ?thesis by (simp add: r string_includes_iff)
  qed
  have j: "''Try to include: '' @ join '', '' (required_keywords sale_rules) = ''Try to include: vegan, organic''"
    by (simp add: r)
  from required_keyword_advisory[of toLowerCase_ASCII sale_script sale_rules] n r j
  show ?thesis by simp
qed

text \<open>
  C4 (the code at a failing input).  The claim gives \<open>overall_virality_potential\<close> and
  \<open>virality_score\<close> the range \<open>[0, 1]\<close>.  \<open>ensureNumber\<close> is called with two
  arguments for every score, so each is clamped to the default bounds \<open>[-1, 1]\<close>: the
  response \<open>{"overall_virality_potential": -0.7}\<close> leaves the parser with
  \<open>-0.7\<close>, and a pack whose \<open>virality_score\<close> is \<open>-0.5\<close> is validated, with its
  receiver, to \<open>-0.5\<close>.  What both calls of \<open>ensureNumber\<close> do guarantee, for every
  value on which they return, is the range \<open>[-1, 1]\<close>; what they raise is a
  \<open>TypeError\<close>.
\<close>

theorem virality_scores_clamped_to_default_bounds:
  "overall_virality_potential (parseViralityAnalysis example_platform negative_potential_text) = - 7 / 10
   \<and> map_sum id virality_score (validateViralityPack example_platform This_service four_hooks_pack)
       = Inr (- 1 / 2)
   \<and> (case ensureNumber pf v 0 (- 1) 1 of Inl e \<Rightarrow> e = TypeError | Inr x \<Rightarrow> - 1 \<le> x \<and> x \<le> 1)
   \<and> (case ensureNumber pf v (1 / 2) (- 1) 1 of Inl e \<Rightarrow> e = TypeError | Inr x \<Rightarrow> - 1 \<le> x \<and> x \<le> 1)"
proof -
  have s: "(case ensureNumber pf v 0 (- 1) 1 of Inl e \<Rightarrow> e = TypeError | Inr x \<Rightarrow> - 1 \<le> x \<and> x \<le> 1)"
  proof (cases "ensureNumber pf v 0 (- 1) 1")
    case (Inl e)
    then show ?thesis using ensureNumber_raises[of pf v 0 "- 1" 1 e] by simp
  next
    case (Inr x)
    from ensureNumber_bounds[OF _ _ _ Inr] Inr show ?thesis by simp
  qed
  have p: "(case ensureNumber pf v (1 / 2) (- 1) 1 of Inl e \<Rightarrow> e = TypeError | Inr x \<Rightarrow> - 1 \<le> x \<and> x \<le> 1)"
  proof (cases "ensureNumber pf v (1 / 2) (- 1) 1")
    case (Inl e)
    then show ?thesis using ensureNumber_raises[of pf v "1 / 2" "- 1" 1 e] by simp
  next
    case (Inr x)
    from ensureNumber_bounds[OF _ _ _ Inr] Inr show ?thesis by simp
  qed
  from s p show ?thesis by (simp only: parse_negative_potential validate_four_hooks) simp
qed






text \<open>
  C10.  \<open>ScrapingManager.scrapeProduct\<close> tries the scrapers in the order TikTok Shop,
  Amazon, AliExpress, generic; \<open>canHandle\<close> of the generic scraper accepts every
  input, so \<open>find\<close> never comes back empty, the branch
  \<open>No suitable scraper found for this URL\<close> is not taken, and the URL goes to the first
  scraper that accepts it, whatever \<open>new URL\<close> does with the input.
\<close>

theorem scrapeProduct_always_dispatches:
  "scrapers = [TikTokShopScraper, AmazonScraper, AliExpressScraper, GenericExternalScraper]
   \<and> canHandle new_URL GenericExternalScraper url
   \<and> find (\<lambda>s. canHandle new_URL s url) scrapers =
       Some (if canHandle new_URL TikTokShopScraper url then TikTokShopScraper
             else if canHandle new_URL AmazonScraper url then AmazonScraper
             else if canHandle new_URL AliExpressScraper url then AliExpressScraper
             else GenericExternalScraper)
   \<and> find (\<lambda>s. canHandle new_URL s url) scrapers \<noteq> None
   \<and> scrapeProduct new_URL run url =
       (case run (if canHandle new_URL TikTokShopScraper url then TikTokShopScraper
                  else if canHandle new_URL AmazonScraper url then AmazonScraper
                  else if canHandle new_URL AliExpressScraper url then AliExpressScraper
                  else GenericExternalScraper) url of
          Inr result \<Rightarrow> result
        | Inl (Raised_Error msg) \<Rightarrow> \<lparr>success = False, scraped = None, error = Some msg\<rparr>
        | Inl Raised_other \<Rightarrow> \<lparr>success = False, scraped = None, error = Some ''Scraping failed''\<rparr>)"
proof -
  have f: "find (\<lambda>s. canHandle new_URL s url) scrapers =
       Some (if canHandle new_URL TikTokShopScraper url then TikTokShopScraper
             else if canHandle new_URL AmazonScraper url then AmazonScraper
             else if canHandle new_URL AliExpressScraper url then AliExpressScraper
             else GenericExternalScraper)"
    by (simp add: scrapers_def)
  show ?thesis
    unfolding scrapeProduct_def f by (simp add: scrapers_def)
qed

text \<open>
  C3.  For the reviews with ratings 5, 1 and 2 of the scenario, \<open>processReviews\<close>
  returns \<open>taste_quality\<close> among the pain points with 2 mentions and sentiment
  \<open>-0.75\<close>, and among the delight factors with 1 mention and sentiment \<open>1\<close>: the
  theme is in both buckets.  The result is the same in exact arithmetic and in binary64,
  for every quote transformer, and for every lower-casing function of the runtime that
  leaves the three contents, which are in lower case, as they are (the ASCII one does).
  One theme of one review goes to the pain points when
  the sentiment is negative, to the delight factors when it is above \<open>0.3\<close>, and
  nowhere when it is in \<open>[0, 0.3]\<close> (in binary64 the bound is the double \<open>0.3\<close>).
\<close>

theorem taste_quality_in_both_buckets:
  "processReviews exact toLowerCase_ASCII tq taste_reviews =
     \<lparr>pain_points =
        [\<lparr>theme = ''taste_quality'', insight_sentiment = - (3 / 4), insight_mentions = 2,
          example_quotes = [tq ''terrible taste, waste of money'' None, tq ''bad taste'' None]\<rparr>,
         \<lparr>theme = ''price_value'', insight_sentiment = - 1, insight_mentions = 1,
          example_quotes = [tq ''terrible taste, waste of money'' None]\<rparr>],
      delight_factors =
        [\<lparr>theme = ''taste_quality'', insight_sentiment = 1, insight_mentions = 1,
          example_quotes = [tq ''amazing taste and great energy'' None]\<rparr>]\<rparr>
   \<and> processReviews binary64 toLowerCase_ASCII tq taste_reviews = processReviews exact toLowerCase_ASCII tq taste_reviews
   \<and> (map toLowerCase (map content taste_reviews) = map content taste_reviews \<longrightarrow>
        processReviews rnd toLowerCase tq taste_reviews
        = processReviews rnd toLowerCase_ASCII tq taste_reviews)
   \<and> map toLowerCase_ASCII (map content taste_reviews) = map content taste_reviews
   \<and> (s < 0 \<longrightarrow>
        route exact s q name (pp, df) = (add_mention exact name s q pp, df)
        \<and> route binary64 s q name (pp, df) = (add_mention binary64 name s q pp, df))
   \<and> (3 / 10 < s \<longrightarrow>
        route exact s q name (pp, df) = (pp, add_mention exact name s q df)
        \<and> route binary64 s q name (pp, df) = (pp, add_mention binary64 name s q df))
   \<and> (0 \<le> s \<and> s \<le> 3 / 10 \<longrightarrow> route exact s q name (pp, df) = (pp, df))
   \<and> (0 \<le> s \<and> s \<le> binary64 (3 / 10) \<longrightarrow> route binary64 s q name (pp, df) = (pp, df))"
proof -
  have lit: "binary64 (3 / 10) < 3 / 10" "0 < binary64 (3 / 10)"
    by (simp_all add: binary64_03)
  have a: "s < 0 \<longrightarrow>
        route exact s q name (pp, df) = (add_mention exact name s q pp, df)
        \<and> route binary64 s q name (pp, df) = (add_mention binary64 name s q pp, df)"
    by (simp add: route_def)
  have b: "3 / 10 < s \<longrightarrow>
        route exact s q name (pp, df) = (pp, add_mention exact name s q df)
        \<and> route binary64 s q name (pp, df) = (pp, add_mention binary64 name s q df)"
    using lit by (auto simp: route_def exact_def)
  have c: "0 \<le> s \<and> s \<le> 3 / 10 \<longrightarrow> route exact s q name (pp, df) = (pp, df)"
    by (auto simp: route_def exact_def)
  have d: "0 \<le> s \<and> s \<le> binary64 (3 / 10) \<longrightarrow> route binary64 s q name (pp, df) = (pp, df)"
    by (auto simp: route_def)
  have e: "processReviews binary64 toLowerCase_ASCII tq taste_reviews = processReviews exact toLowerCase_ASCII tq taste_reviews"
    by (simp only: process_taste_reviews_exact process_taste_reviews_binary64)
  have f: "map toLowerCase (map content taste_reviews) = map content taste_reviews \<longrightarrow>
        processReviews rnd toLowerCase tq taste_reviews
        = processReviews rnd toLowerCase_ASCII tq taste_reviews"
    using process_taste_reviews_lower[of toLowerCase rnd tq] by blast
  from process_taste_reviews_exact[of tq] e f taste_reviews_lower_case a b c d show ?thesis by blast
qed

theorem taste_quality_in_both_buckets_witness:
  "route exact (- 1) ''q'' ''taste_quality'' ([], []) =
     ([(''taste_quality'', \<lparr>sentiment = - 1, mentions = 1, quotes = [''q'']\<rparr>)], [])
   \<and> route exact 1 ''q'' ''taste_quality'' ([], []) =
     ([], [(''taste_quality'', \<lparr>sentiment = 1, mentions = 1, quotes = [''q'']\<rparr>)])
   \<and> route exact 0 ''q'' ''taste_quality'' ([], []) = ([], [])
   \<and> route binary64 0 ''q'' ''taste_quality'' ([], []) = ([], [])
   \<and> map theme (pain_points (processReviews exact toLowerCase_ASCII (\<lambda>c t. c) taste_reviews))
       = [''taste_quality'', ''price_value'']
   \<and> map theme (delight_factors (processReviews exact toLowerCase_ASCII (\<lambda>c t. c) taste_reviews))
       = [''taste_quality'']
   \<and> map (\<lambda>c. c) (map content taste_reviews) = map content taste_reviews
   \<and> processReviews binary64 (\<lambda>c. c) (\<lambda>c t. c) taste_reviews
       = processReviews binary64 toLowerCase_ASCII (\<lambda>c t. c) taste_reviews"
proof -
  have z: "(0::rat) \<le> binary64 (3 / 10)" by (simp add: binary64_03)
  have i: "map (\<lambda>c. c) (map content taste_reviews) = map content taste_reviews" by simp
  from taste_quality_in_both_buckets[where toLowerCase = "\<lambda>c. c" and rnd = binary64
      and tq = "\<lambda>c t. c"] i
  have l: "processReviews binary64 (\<lambda>c. c) (\<lambda>c t. c) taste_reviews
       = processReviews binary64 toLowerCase_ASCII (\<lambda>c t. c) taste_reviews"
    by blast
  from taste_quality_in_both_buckets[where tq = "\<lambda>c t. c" and s = "- 1" and q = "''q''"
      and name = "''taste_quality''" and pp = "[]" and df = "[]"]
  have n: "route exact (- 1) ''q'' ''taste_quality'' ([], []) =
     ([(''taste_quality'', \<lparr>sentiment = - 1, mentions = 1, quotes = [''q'']\<rparr>)], [])"
    and p: "map theme (pain_points (processReviews exact toLowerCase_ASCII (\<lambda>c t. c) taste_reviews))
       = [''taste_quality'', ''price_value'']"
    and d: "map theme (delight_factors (processReviews exact toLowerCase_ASCII (\<lambda>c t. c) taste_reviews))
       = [''taste_quality'']"
    by (simp_all add: exact_def)
  from taste_quality_in_both_buckets[where tq = "\<lambda>c t. c" and s = 1 and q = "''q''"
      and name = "''taste_quality''" and pp = "[]" and df = "[]"]
  have h: "route exact 1 ''q'' ''taste_quality'' ([], []) =
     ([], [(''taste_quality'', \<lparr>sentiment = 1, mentions = 1, quotes = [''q'']\<rparr>)])"
    by (simp add: exact_def)
  from taste_quality_in_both_buckets[where tq = "\<lambda>c t. c" and s = 0 and q = "''q''"
      and name = "''taste_quality''" and pp = "[]" and df = "[]"] z
  have m: "route exact 0 ''q'' ''taste_quality'' ([], []) = ([], [])"
    "route binary64 0 ''q'' ''taste_quality'' ([], []) = ([], [])"
    by simp_all
  from n h m p d i l show ?thesis by blast
qed

end
